theory Spec2Isabelle
  imports Main
begin

section \<open>JavaScript values, errors and number formatting\<close>

text \<open>
  The values that travel through the plugin (evaluated bindings, bound parameters).
  No arithmetic is ever done on them, so numbers are kept as integers.
  \<open>JUndefined\<close> is what reading a missing property of an object yields, and
  \<open>JInherited k\<close> is what reading \<open>k\<close> yields when the object has no such property of
  its own but \<open>Object.prototype\<close> has (a function, or for \<open>__proto__\<close> the prototype).
\<close>

datatype jsval =
    JUndefined | JNull | JBool bool | JNum int | JStr string | JArr "jsval list"
  | JInherited string

text \<open>The names of the properties every ordinary object inherits from \<open>Object.prototype\<close>.\<close>

definition object_prototype_names :: "string list" where
  "object_prototype_names =
     [''constructor'', ''__defineGetter__'', ''__defineSetter__'', ''hasOwnProperty'',
      ''__lookupGetter__'', ''__lookupSetter__'', ''isPrototypeOf'', ''propertyIsEnumerable'',
      ''toString'', ''valueOf'', ''__proto__'', ''toLocaleString'']"

text \<open>
  Thrown values.  \<open>IntegrationError\<close> is the class the plugin throws itself; every other
  error (a driver error, a \<open>TypeError\<close> of the runtime, an error of the binding evaluator)
  is a \<open>ForeignError\<close>.  Both carry their \<open>message\<close>.
\<close>

datatype error = IntegrationError string | ForeignError string

fun message :: "error \<Rightarrow> string" where
  "message (IntegrationError m) = m"
| "message (ForeignError m) = m"

definition pluginName :: string where
  "pluginName = ''Microsoft SQL''"

text \<open>The decimal digits of a number, as a template literal \<open>${n}\<close> prints a counter.\<close>

definition digit_char :: "nat \<Rightarrow> char" where
  "digit_char d = ''0123456789'' ! d"

function number_toString :: "nat \<Rightarrow> string" where
  "number_toString n =
     (if n < 10 then [digit_char n]
      else number_toString (n div 10) @ [digit_char (n mod 10)])"
  by pat_completeness auto
termination
  by (relation "measure id") auto

declare number_toString.simps [simp del]

section \<open>The binding resolver\<close>

text \<open>
  \<open>`PARAM_${paramCount}`\<close> is the name the executor binds a value to, and
  \<open>`@PARAM_${bindingCount}`\<close> is the placeholder the resolver writes into the SQL text.
\<close>

definition param_name :: "nat \<Rightarrow> string" where
  "param_name n = ''PARAM_'' @ number_toString n"

definition placeholder :: "nat \<Rightarrow> string" where
  "placeholder n = ''@PARAM_'' @ number_toString n"

record actionConfiguration =
  body :: "string option"
  usePreparedSql :: "bool option"

text \<open>
  The runtime context: \<open>globals\<close> stands for everything the host put there (of a type
  \<open>'g\<close> this plugin never looks into), \<open>preparedStatementContext\<close> is the slot the
  resolver writes and the executor reads.
\<close>

record 'g executionContext =
  globals :: 'g
  preparedStatementContext :: "jsval list"

record 'g resolutionContext =
  actionConfiguration :: actionConfiguration
  context' :: "'g executionContext"
  property :: string
  files :: "(string \<rightharpoonup> string) option"
  escapeStrings :: bool

text \<open>JavaScript truthiness of an optional boolean: \<open>undefined\<close> and \<open>false\<close> are falsy.\<close>

fun truthy :: "bool option \<Rightarrow> bool" where
  "truthy None = False"
| "truthy (Some b) = b"

text \<open>
  \<open>bindingResolutions[toEval]\<close>.  The record the evaluator returns is an ordinary object,
  given here by its own properties: a key it does not hold reads as what
  \<open>Object.prototype\<close> has under that name, or else as \<open>undefined\<close>.
\<close>

definition lookup_binding :: "(string \<rightharpoonup> jsval) \<Rightarrow> string \<Rightarrow> jsval" where
  "lookup_binding bindingResolutions toEval =
     (case bindingResolutions toEval of
        Some v \<Rightarrow> v
      | None \<Rightarrow> if toEval \<in> set object_prototype_names then JInherited toEval else JUndefined)"

text \<open>
  \<open>bindingResolution[toEval] = ...\<close> on the object created as \<open>{}\<close>, the value being a
  string.  Under the key \<open>__proto__\<close> the assignment reaches the accessor of
  \<open>Object.prototype\<close>, which ignores a value that is not an object: nothing is stored.
  Under every other key the object gets, or updates, a property of its own.
\<close>

definition assign_property :: "(string \<rightharpoonup> string) \<Rightarrow> string \<Rightarrow> string \<Rightarrow> (string \<rightharpoonup> string)" where
  "assign_property obj k v = (if k = ''__proto__'' then obj else obj(k \<mapsto> v))"

text \<open>
  The loop of \<open>resolveActionConfigurationProperty\<close>
  \<^verbatim>\<open>
    for (const toEval of extractMustacheStrings(propertyToResolve)) {
      bindingResolution[toEval] = `@PARAM_${bindingCount++}`;
      resolutionContext.context.preparedStatementContext.push(bindingResolutions[toEval]);
    }
  \<close>
  over the three things it changes: the object \<open>bindingResolution\<close> (its own
  properties, keyed by the text of the expression), the context (whose \<open>preparedStatementContext\<close> it pushes to) and the
  counter \<open>bindingCount\<close>.
\<close>

type_synonym 'g loop_state = "(string \<rightharpoonup> string) \<times> 'g executionContext \<times> nat"

fun bind_loop :: "(string \<rightharpoonup> jsval) \<Rightarrow> string list \<Rightarrow> 'g loop_state \<Rightarrow> 'g loop_state" where
  "bind_loop bindingResolutions [] st = st"
| "bind_loop bindingResolutions (toEval # rest) (bindingResolution, ctx, bindingCount) =
     bind_loop bindingResolutions rest
       (assign_property bindingResolution toEval (placeholder bindingCount),
        ctx\<lparr>preparedStatementContext :=
              preparedStatementContext ctx @ [lookup_binding bindingResolutions toEval]\<rparr>,
        bindingCount + 1)"

text \<open>
  \<open>resolveActionConfigurationProperty\<close>.  Its collaborators come from other packages and
  are parameters here:
  \<^item> \<open>extractMustacheStrings\<close>, the template scanner;
  \<^item> \<open>resolveAllBindings\<close>, the evaluator, which may throw (it is given the whole
    context, \<open>files ?? {}\<close> and \<open>escapeStrings\<close>);
  \<^item> \<open>renderValue\<close>, which substitutes the placeholders;
  \<^item> \<open>super\<close>, the resolver of the base class.
  The result is the resolved value together with the context as the call leaves it; when
  the evaluator throws, the context has not been touched yet.
  (The pooled variant of the plugin wraps the rendered string as \<open>{resolved: ...}\<close>; the
  other variant returns it bare.)

  \<open>resolvePrepared\<close> is the body of the method below its guard: there
  \<open>resolutionContext.property\<close> is \<open>'body'\<close>, so
  \<open>actionConfiguration[resolutionContext.property] ?? ''\<close> reads the body.
\<close>

definition property_or_empty :: "string option \<Rightarrow> string" where
  "property_or_empty p = (case p of None \<Rightarrow> [] | Some b \<Rightarrow> b)"

definition files_or_empty :: "(string \<rightharpoonup> string) option \<Rightarrow> (string \<rightharpoonup> string)" where
  "files_or_empty fs = (case fs of None \<Rightarrow> Map.empty | Some f \<Rightarrow> f)"

definition resolvePrepared ::
  "(string \<Rightarrow> string list) \<Rightarrow>
   (string \<Rightarrow> 'g executionContext \<Rightarrow> (string \<rightharpoonup> string) \<Rightarrow> bool \<Rightarrow> error + (string \<rightharpoonup> jsval)) \<Rightarrow>
   (string \<Rightarrow> (string \<rightharpoonup> string) \<Rightarrow> string) \<Rightarrow>
   'g resolutionContext \<Rightarrow> error + jsval \<times> 'g executionContext" where
  "resolvePrepared extractMustacheStrings resolveAllBindings renderValue rc =
     (let propertyToResolve = property_or_empty (body (actionConfiguration rc))
      in case resolveAllBindings propertyToResolve (context' rc)
                (files_or_empty (files rc)) (escapeStrings rc) of
           Inl err \<Rightarrow> Inl err
         | Inr bindingResolutions \<Rightarrow>
             (case bind_loop bindingResolutions (extractMustacheStrings propertyToResolve)
                     (Map.empty, (context' rc)\<lparr>preparedStatementContext := []\<rparr>, 1) of
                (bindingResolution, ctx, bindingCount) \<Rightarrow>
                  Inr (JStr (renderValue propertyToResolve bindingResolution), ctx)))"

definition resolveActionConfigurationProperty ::
  "(string \<Rightarrow> string list) \<Rightarrow>
   (string \<Rightarrow> 'g executionContext \<Rightarrow> (string \<rightharpoonup> string) \<Rightarrow> bool \<Rightarrow> error + (string \<rightharpoonup> jsval)) \<Rightarrow>
   (string \<Rightarrow> (string \<rightharpoonup> string) \<Rightarrow> string) \<Rightarrow>
   ('g resolutionContext \<Rightarrow> error + jsval \<times> 'g executionContext) \<Rightarrow>
   'g resolutionContext \<Rightarrow> error + jsval \<times> 'g executionContext" where
  "resolveActionConfigurationProperty extractMustacheStrings resolveAllBindings renderValue super rc =
     (if \<not> truthy (usePreparedSql (actionConfiguration rc)) \<or> property rc \<noteq> ''body''
      then super rc
      else resolvePrepared extractMustacheStrings resolveAllBindings renderValue rc)"

subsection \<open>The template scanner and the renderer\<close>

text \<open>
  Modelled from the spec: the delimiter syntax of a template (spec 3, Query Template:
  embedded expressions delimited by a recognized marker syntax, e.g. double-brace); the
  scanner and the renderer of the package \<open>@superblocksteam/shared-backend\<close> are not among
  the repository's files.  A template is cut into literal text and embedded expressions
  \<open>{{...}}\<close>: an expression runs from \<open>{{\<close> to the first \<open>}}\<close> after it, and a
  \<open>{{\<close> that is never closed is literal text.
\<close>

datatype segment = Literal string | Expression string

fun split_at_close :: "string \<Rightarrow> (string \<times> string) option" where
  "split_at_close [] = None"
| "split_at_close (c # cs) =
     (if c = CHR ''}'' \<and> cs \<noteq> [] \<and> hd cs = CHR ''}'' then Some ([], tl cs)
      else (case split_at_close cs of None \<Rightarrow> None | Some (inner, rest) \<Rightarrow> Some (c # inner, rest)))"

fun cons_literal :: "char \<Rightarrow> segment list \<Rightarrow> segment list" where
  "cons_literal c (Literal s # segs) = Literal (c # s) # segs"
| "cons_literal c segs = Literal [c] # segs"

lemma split_at_close_shorter:
  "split_at_close s = Some (inner, rest) \<Longrightarrow> length rest < length s"
proof (induction s arbitrary: inner)
  case Nil
  then show ?case by simp
next
  case (Cons c cs)
  show ?case
  proof (cases "c = CHR ''}'' \<and> cs \<noteq> [] \<and> hd cs = CHR ''}''")
    case True
    with Cons.prems have "rest = tl cs" by simp
    with True show ?thesis by (cases cs) auto
  next
    case False
    with Cons.prems obtain inner' where "split_at_close cs = Some (inner', rest)"
      by (auto split: option.splits)
    from Cons.IH [OF this] show ?thesis by simp
  qed
qed

function segments :: "string \<Rightarrow> segment list" where
  "segments [] = []"
| "segments (c # cs) =
     (if c = CHR ''{'' \<and> cs \<noteq> [] \<and> hd cs = CHR ''{''
      then (case split_at_close (tl cs) of
              None \<Rightarrow> [Literal (c # cs)]
            | Some (inner, rest) \<Rightarrow> Expression inner # segments rest)
      else cons_literal c (segments cs))"
  by pat_completeness auto
termination
proof (relation "measure length")
  show "wf (measure length)" by simp
next
  fix c :: char and cs x2 x y
  assume "c = CHR ''{'' \<and> cs \<noteq> [] \<and> hd cs = CHR ''{''"
    and "split_at_close (tl cs) = Some x2" and "(x, y) = x2"
  then have "length y < length (tl cs)"
    using split_at_close_shorter [of "tl cs" x y] by simp
  then show "(y, c # cs) \<in> measure length" by simp
next
  fix c :: char and cs
  show "(cs, c # cs) \<in> measure length" by simp
qed

fun expression_of :: "segment \<Rightarrow> string list" where
  "expression_of (Literal s) = []"
| "expression_of (Expression e) = [e]"

text \<open>
  Modelled from the spec: \<open>extractMustacheStrings\<close> of the package
  \<open>@superblocksteam/shared-backend\<close> is not among the repository's files.  Spec 4.1
  (Template Scanner): the ordered sequence, duplicates preserved, left to right, of the
  embedded-expression substrings of the template; empty when there is none.
\<close>

definition extractMustacheStrings_spec :: "string \<Rightarrow> string list" where
  "extractMustacheStrings_spec template = concat (map expression_of (segments template))"

text \<open>
  Modelled from the spec: \<open>renderValue\<close> of the package \<open>@superblocksteam/shared-backend\<close>
  is not among the repository's files.  Spec 4.2, step 5: the template with each occurrence
  of each expression replaced by what the map assigns to the expression's text.  (An
  expression the map does not hold is left as it stands; the resolver never passes such a
  map.)
\<close>

fun render_segment :: "(string \<rightharpoonup> string) \<Rightarrow> segment \<Rightarrow> string" where
  "render_segment bindingResolution (Literal s) = s"
| "render_segment bindingResolution (Expression e) =
     (case bindingResolution e of None \<Rightarrow> ''{{'' @ e @ ''}}'' | Some p \<Rightarrow> p)"

definition renderValue_spec :: "string \<Rightarrow> (string \<rightharpoonup> string) \<Rightarrow> string" where
  "renderValue_spec template bindingResolution =
     concat (map (render_segment bindingResolution) (segments template))"

section \<open>The connection and the driver\<close>

record endpointConfig =
  host :: "string option"
  port :: "nat option"

record propertyConfig =
  value' :: "string option"

record customConfig =
  databaseName :: "propertyConfig option"

record authConfig =
  username :: "string option"
  password :: "string option"
  custom :: "customConfig option"

record connectionConfig =
  useSsl :: "bool option"

record datasourceConfiguration =
  endpoint :: "endpointConfig option"
  authentication :: "authConfig option"
  connection :: "connectionConfig option"

text \<open>
  The descriptor handed to the driver.  \<open>port\<close> is \<open>Number(endpoint.port)\<close>, with
  \<open>None\<close> for the \<open>NaN\<close> of a missing port.
\<close>

record sqlConfig =
  user :: "string option"
  password :: "string option"
  database :: string
  server :: "string option"
  port :: "nat option"
  requestTimeout :: nat
  trustServerCertificate :: bool
  encrypt :: bool

datatype connectionPool = ConnectionPool sqlConfig

text \<open>
  What a run does to the outside: connection attempts, the requests made on a connection,
  the values bound on them, the queries sent, and closing.
\<close>

datatype event =
    Connect sqlConfig
  | NewRequest
  | Input string jsval
  | Query string
  | Close

text \<open>
  The driver and the database behind it, as the answers they give: \<open>connect\<close> fails with
  a message or succeeds, \<open>query\<close> answers a text sent with bound inputs by an error
  message or a record set, and \<open>close\<close> resolves or rejects with a message.
\<close>

record 'rs driver =
  connect :: "sqlConfig \<Rightarrow> string option"
  query :: "string \<Rightarrow> (string \<times> jsval) list \<Rightarrow> string + 'rs"
  close :: "string option"

type_synonym 'a outcome = "(error + 'a) \<times> event list"

text \<open>\<open>auth.custom?.databaseName?.value\<close>\<close>

definition databaseName_value :: "authConfig \<Rightarrow> string option" where
  "databaseName_value auth =
     (case custom auth of
        None \<Rightarrow> None
      | Some c \<Rightarrow> (case databaseName c of None \<Rightarrow> None | Some p \<Rightarrow> value' p))"

text \<open>A string that may be \<open>undefined\<close> is falsy when it is \<open>undefined\<close> or empty.\<close>

fun falsy_string :: "string option \<Rightarrow> bool" where
  "falsy_string None = True"
| "falsy_string (Some s) = (s = [])"

definition useSsl_of :: "datasourceConfiguration \<Rightarrow> bool" where
  "useSsl_of cfg = (case connection cfg of None \<Rightarrow> False | Some c \<Rightarrow> truthy (useSsl c))"

text \<open>
  \<open>createConnection\<close> of the pooled plugin: the three checks in the order of the source,
  then the descriptor, then \<open>new mssql.ConnectionPool(sqlConfig)\<close> and
  \<open>await connPool.connect()\<close>, whose failure is wrapped.
\<close>

definition createConnection ::
  "'rs driver \<Rightarrow> datasourceConfiguration \<Rightarrow> nat \<Rightarrow> connectionPool outcome" where
  "createConnection d datasourceConfiguration connectionTimeoutMillis =
     (case endpoint datasourceConfiguration of
        None \<Rightarrow> (Inl (IntegrationError (''Endpoint not specified for '' @ pluginName @ '' step'')), [])
      | Some ep \<Rightarrow>
     (case authentication datasourceConfiguration of
        None \<Rightarrow> (Inl (IntegrationError (''Authentication not specified for '' @ pluginName @ '' step'')), [])
      | Some auth \<Rightarrow>
          if falsy_string (databaseName_value auth)
          then (Inl (IntegrationError (''Database not specified for '' @ pluginName @ '' step'')), [])
          else
            let sqlConfig =
              \<lparr>user = username auth, password = authConfig.password auth,
               database = property_or_empty (databaseName_value auth),
               server = Some (property_or_empty (host ep)),
               port = endpointConfig.port ep,
               requestTimeout = connectionTimeoutMillis,
               trustServerCertificate = True,
               encrypt = useSsl_of datasourceConfiguration\<rparr>
            in (case connect d sqlConfig of
                  Some msg \<Rightarrow>
                    (Inl (IntegrationError (''Failed to connect to '' @ pluginName @ '', '' @ msg)),
                     [Connect sqlConfig])
                | None \<Rightarrow> (Inr (ConnectionPool sqlConfig), [Connect sqlConfig]))))"

text \<open>
  \<open>createConnection\<close> of the plugin that does not pool: the same, but for
  \<open>server: endpoint.host\<close> (no default) and \<open>mssql.connect(sqlConfig)\<close>.
\<close>

definition createConnection_unpooled ::
  "'rs driver \<Rightarrow> datasourceConfiguration \<Rightarrow> nat \<Rightarrow> connectionPool outcome" where
  "createConnection_unpooled d datasourceConfiguration connectionTimeoutMillis =
     (case endpoint datasourceConfiguration of
        None \<Rightarrow> (Inl (IntegrationError (''Endpoint not specified for '' @ pluginName @ '' step'')), [])
      | Some ep \<Rightarrow>
     (case authentication datasourceConfiguration of
        None \<Rightarrow> (Inl (IntegrationError (''Authentication not specified for '' @ pluginName @ '' step'')), [])
      | Some auth \<Rightarrow>
          if falsy_string (databaseName_value auth)
          then (Inl (IntegrationError (''Database not specified for '' @ pluginName @ '' step'')), [])
          else
            let sqlConfig =
              \<lparr>user = username auth, password = authConfig.password auth,
               database = property_or_empty (databaseName_value auth),
               server = host ep,
               port = endpointConfig.port ep,
               requestTimeout = connectionTimeoutMillis,
               trustServerCertificate = True,
               encrypt = useSsl_of datasourceConfiguration\<rparr>
            in (case connect d sqlConfig of
                  Some msg \<Rightarrow>
                    (Inl (IntegrationError (''Failed to connect to '' @ pluginName @ '', '' @ msg)),
                     [Connect sqlConfig])
                | None \<Rightarrow> (Inr (ConnectionPool sqlConfig), [Connect sqlConfig]))))"

text \<open>The default of the parameter \<open>connectionTimeoutMillis\<close>; no caller passes another.\<close>

definition connectionTimeoutMillis_default :: nat where
  "connectionTimeoutMillis_default = 30000"

subsection \<open>Releasing\<close>

text \<open>
  \<open>destroyConnection\<close> is \<open>await connection.close()\<close>: a promise that settles as
  \<open>close\<close> does.  Both plugins start the release in a \<open>finally\<close> block and do not await
  it: the pooled one as \<open>this.destroyConnection(conn).catch(() => {})\<close>, the other as
  \<open>conn.close()\<close>.  \<open>swallow\<close> is the \<open>.catch(() => {})\<close>; \<open>not_awaited\<close> is a promise
  whose settlement nobody waits for: the block goes on normally whatever it will be.
  \<open>try_finally\<close> is JavaScript's \<open>finally\<close>: the events of the block follow those of the body, and
  an error thrown by the block replaces the outcome of what was tried.
\<close>

definition destroyConnection :: "'rs driver \<Rightarrow> connectionPool \<Rightarrow> unit outcome" where
  "destroyConnection d conn =
     (case close d of None \<Rightarrow> (Inr (), [Close]) | Some msg \<Rightarrow> (Inl (ForeignError msg), [Close]))"

definition swallow :: "unit outcome \<Rightarrow> unit outcome" where
  "swallow p = (case p of (Inl err, evs) \<Rightarrow> (Inr (), evs) | (Inr u, evs) \<Rightarrow> (Inr u, evs))"

definition not_awaited :: "unit outcome \<Rightarrow> unit outcome" where
  "not_awaited p = (Inr (), snd p)"

definition try_finally :: "'a outcome \<Rightarrow> unit outcome \<Rightarrow> 'a outcome" where
  "try_finally tried block =
     (case block of
        (Inl err, evs) \<Rightarrow> (Inl err, snd tried @ evs)
      | (Inr u, evs) \<Rightarrow> (fst tried, snd tried @ evs))"

section \<open>The query executor\<close>

text \<open>\<open>new ExecutionOutput()\<close> has no output yet; \<open>ret.output = ...\<close> sets it.\<close>

datatype 'o executionOutput = ExecutionOutput "'o option"

text \<open>lodash's \<open>isEmpty\<close> on a string that may be \<open>undefined\<close>: true for \<open>undefined\<close>
  and for the string of length 0, false for every other string.\<close>

fun isEmpty :: "string option \<Rightarrow> bool" where
  "isEmpty None = True"
| "isEmpty (Some s) = (length s = 0)"

text \<open>
  The loop \<open>for (const param of context.preparedStatementContext)
  request = request.input(`PARAM_${paramCount++}`, param)\<close>: the bindings it puts on
  the request, in order.
\<close>

fun input_loop :: "jsval list \<Rightarrow> nat \<Rightarrow> (string \<times> jsval) list" where
  "input_loop [] paramCount = []"
| "input_loop (param # rest) paramCount =
     (param_name paramCount, param) # input_loop rest (paramCount + 1)"

text \<open>
  Modelled from the spec: \<open>executeQuery\<close> is inherited from \<open>DatabasePluginPooled\<close>, which
  is not among the repository's files.  Spec 4.4: no retry is performed at this layer; the
  callback runs once and its result or failure is handed back.
\<close>

definition executeQuery :: "'a outcome \<Rightarrow> 'a outcome" where
  "executeQuery queryFunc = queryFunc"

text \<open>\<open>request.query(query)\<close> on a request carrying the bindings \<open>inputs\<close>.\<close>

definition request_query ::
  "'rs driver \<Rightarrow> (string \<times> jsval) list \<Rightarrow> string \<Rightarrow> 'rs outcome" where
  "request_query d inputs q =
     (case query d q inputs of Inl msg \<Rightarrow> Inl (ForeignError msg) | Inr rs \<Rightarrow> Inr rs,
      NewRequest # map (\<lambda>(n, v). Input n v) inputs @ [Query q])"

text \<open>
  \<open>executePooled\<close>: the connection is handed in by the framework.
  \<open>normalizeTableColumnNames\<close> comes from another package and is a parameter.
\<close>

definition executePooled ::
  "'rs driver \<Rightarrow> ('rs \<Rightarrow> 'o) \<Rightarrow> 'g executionContext \<Rightarrow> actionConfiguration \<Rightarrow> connectionPool
     \<Rightarrow> 'o executionOutput outcome" where
  "executePooled d normalizeTableColumnNames ctx action conn =
     (let q = body action in
      if falsy_string q \<or> isEmpty q then (Inr (ExecutionOutput None), [])
      else
        case executeQuery
               (request_query d (input_loop (preparedStatementContext ctx) 1) (property_or_empty q)) of
          (Inl err, evs) \<Rightarrow>
            (Inl (IntegrationError (pluginName @ '' query failed, '' @ message err)), evs)
        | (Inr result, evs) \<Rightarrow>
            (Inr (ExecutionOutput (Some (normalizeTableColumnNames result))), evs))"

text \<open>
  \<open>execute\<close> of the plugin that does not pool: \<open>try\<close> (connect, then the same steps),
  \<open>catch\<close> (wrap whatever was thrown), \<open>finally\<close> (close when a connection was made).
\<close>

definition execute ::
  "'rs driver \<Rightarrow> ('rs \<Rightarrow> 'o) \<Rightarrow> 'g executionContext \<Rightarrow> datasourceConfiguration
     \<Rightarrow> actionConfiguration \<Rightarrow> 'o executionOutput outcome" where
  "execute d normalizeTableColumnNames ctx datasourceConfiguration action =
     (case createConnection_unpooled d datasourceConfiguration connectionTimeoutMillis_default of
        (Inl err, evs) \<Rightarrow>
          (Inl (IntegrationError (pluginName @ '' query failed, '' @ message err)), evs)
      | (Inr conn, evs) \<Rightarrow>
          try_finally
            (let q = body action in
             if isEmpty q then (Inr (ExecutionOutput None), evs)
             else
               case request_query d (input_loop (preparedStatementContext ctx) 1)
                      (property_or_empty q) of
                 (Inl err, evs') \<Rightarrow>
                   (Inl (IntegrationError (pluginName @ '' query failed, '' @ message err)),
                    evs @ evs')
               | (Inr result, evs') \<Rightarrow>
                   (Inr (ExecutionOutput (Some (normalizeTableColumnNames result))), evs @ evs'))
            (not_awaited (destroyConnection d conn)))"

section \<open>The schema introspector\<close>

subsection \<open>A plain object used as a dictionary\<close>

text \<open>
  \<open>tablesMap\<close> is created as \<open>{}\<close>, an ordinary object whose prototype is
  \<open>Object.prototype\<close>.  Its own properties are kept here in the order they were created,
  each key once.  Reading \<open>obj[k]\<close> finds an own property, or else a property inherited
  from \<open>Object.prototype\<close>, or else \<open>undefined\<close>.
\<close>

type_synonym 'v js_object = "(string \<times> 'v) list"

datatype 'v property_read = OwnProperty 'v | InheritedProperty | NoProperty

definition get_property :: "'v js_object \<Rightarrow> string \<Rightarrow> 'v property_read" where
  "get_property obj k =
     (case map_of obj k of
        Some v \<Rightarrow> OwnProperty v
      | None \<Rightarrow> if k \<in> set object_prototype_names then InheritedProperty else NoProperty)"

text \<open>
  The order in which \<open>Object.values\<close> visits the own properties: first the keys that are
  array indices (the decimal form of an integer from 0 to \<open>2^32 - 2\<close>), in ascending
  numeric order, then the other keys in the order of their creation.
\<close>

definition digit_value :: "char \<Rightarrow> nat" where
  "digit_value c = (if c \<in> set ''0123456789'' then of_char c - 48 else 0)"

definition parse_nat :: "string \<Rightarrow> nat" where
  "parse_nat s = foldl (\<lambda>acc c. 10 * acc + digit_value c) 0 s"

definition is_array_index :: "string \<Rightarrow> bool" where
  "is_array_index k = (parse_nat k < 4294967295 \<and> number_toString (parse_nat k) = k)"

definition own_keys :: "'v js_object \<Rightarrow> string list" where
  "own_keys obj =
     sort_key parse_nat (filter is_array_index (map fst obj))
     @ filter (\<lambda>k. \<not> is_array_index k) (map fst obj)"

definition Object_values :: "'v js_object \<Rightarrow> 'v list" where
  "Object_values obj = List.map_filter (map_of obj) (own_keys obj)"

subsection \<open>Folding the catalog rows\<close>

record catalog_row =
  table_name :: string
  column_name :: string
  data_type :: string

datatype column = Column string string

datatype tableType = TABLE

text \<open>\<open>new Table(name, type)\<close> starts with no columns.\<close>

record table =
  name :: string
  type' :: tableType
  columns :: "column list"

definition new_Table :: "string \<Rightarrow> tableType \<Rightarrow> table" where
  "new_Table n t = \<lparr>name = n, type' = t, columns = []\<rparr>"

text \<open>\<open>tablesMap[k].columns.push(c)\<close> for an own property \<open>k\<close>: the table is changed in place.\<close>

definition push_column :: "table js_object \<Rightarrow> string \<Rightarrow> column \<Rightarrow> table js_object" where
  "push_column tablesMap k c =
     map (\<lambda>(k', t). if k' = k then (k', t\<lparr>columns := columns t @ [c]\<rparr>) else (k', t)) tablesMap"

text \<open>
  The message of the \<open>TypeError\<close> for \<open>undefined.push\<close>; its wording is the engine's.
\<close>

definition push_of_undefined :: string where
  "push_of_undefined =
     ''Cannot read properties of undefined (reading '' @ [CHR 0x27] @ ''push'' @ [CHR 0x27] @ '')''"

text \<open>
  The loop over \<open>resp.recordset\<close>
  \<^verbatim>\<open>
    if (tablesMap[record.table_name]) {
      tablesMap[record.table_name].columns.push(new Column(record.column_name, record.data_type));
    } else {
      const table = new Table(record.table_name, TableType.TABLE);
      table.columns.push(new Column(record.column_name, record.data_type));
      tablesMap[record.table_name] = table;
    }
  \<close>
  A table of the map is an object, hence truthy.  An inherited property is a function or
  \<open>Object.prototype\<close> itself, truthy too, and has no \<open>columns\<close>: there the first branch
  throws.
\<close>

fun fold_rows :: "table js_object \<Rightarrow> catalog_row list \<Rightarrow> error + table js_object" where
  "fold_rows tablesMap [] = Inr tablesMap"
| "fold_rows tablesMap (row # rest) =
     (case get_property tablesMap (table_name row) of
        OwnProperty t \<Rightarrow>
          fold_rows (push_column tablesMap (table_name row)
                       (Column (column_name row) (data_type row))) rest
      | InheritedProperty \<Rightarrow> Inl (ForeignError push_of_undefined)
      | NoProperty \<Rightarrow>
          fold_rows (tablesMap @
                       [(table_name row,
                         (new_Table (table_name row) TABLE)
                           \<lparr>columns := [Column (column_name row) (data_type row)]\<rparr>)]) rest)"

record dbSchema =
  tables :: "table list"

definition catalog_query :: string where
  "catalog_query = ''select table_name, column_name, data_type from information_schema.columns where table_schema != '' @ [CHR 0x27] @ ''sys'' @ [CHR 0x27] @ '' order by ordinal_position''"

definition probe_query :: string where
  "probe_query = ''select name from sys.databases''"

text \<open>What the \<open>try\<close> block of \<open>metadata\<close> does once the record set is there.\<close>

definition build_schema :: "catalog_row list \<Rightarrow> error + dbSchema" where
  "build_schema recordset =
     (case fold_rows [] recordset of
        Inl err \<Rightarrow> Inl err
      | Inr tablesMap \<Rightarrow> Inr \<lparr>tables = [] @ Object_values tablesMap\<rparr>)"

text \<open>A query with no bindings: \<open>conn.query(text)\<close>, or \<open>mssql.query(text)\<close> on the
  global connection.\<close>

definition plain_query :: "'rs driver \<Rightarrow> string \<Rightarrow> 'rs outcome" where
  "plain_query d q =
     (case query d q [] of Inl msg \<Rightarrow> Inl (ForeignError msg) | Inr rs \<Rightarrow> Inr rs, [Query q])"

text \<open>
  \<open>metadata\<close> of the pooled plugin: the connection is made outside the \<open>try\<close>, so a
  failure to connect is thrown as it is; inside, whatever is thrown is wrapped, and the
  \<open>finally\<close> block starts the release.
\<close>

definition metadata :: "catalog_row list driver \<Rightarrow> datasourceConfiguration \<Rightarrow> dbSchema outcome" where
  "metadata d datasourceConfiguration =
     (case createConnection d datasourceConfiguration connectionTimeoutMillis_default of
        (Inl err, evs) \<Rightarrow> (Inl err, evs)
      | (Inr conn, evs) \<Rightarrow>
          try_finally
            (case executeQuery (plain_query d catalog_query) of
               (Inl err, evs') \<Rightarrow>
                 (Inl (IntegrationError (''Failed to connect to '' @ pluginName @ '', '' @ message err)),
                  evs @ evs')
             | (Inr recordset, evs') \<Rightarrow>
                 (case build_schema recordset of
                    Inl err \<Rightarrow>
                      (Inl (IntegrationError
                              (''Failed to connect to '' @ pluginName @ '', '' @ message err)),
                       evs @ evs')
                  | Inr schema \<Rightarrow> (Inr schema, evs @ evs')))
            (not_awaited (swallow (destroyConnection d conn))))"

text \<open>\<open>metadata\<close> of the plugin that does not pool: connecting is inside the \<open>try\<close>.\<close>

definition metadata_unpooled ::
  "catalog_row list driver \<Rightarrow> datasourceConfiguration \<Rightarrow> dbSchema outcome" where
  "metadata_unpooled d datasourceConfiguration =
     (case createConnection_unpooled d datasourceConfiguration connectionTimeoutMillis_default of
        (Inl err, evs) \<Rightarrow>
          (Inl (IntegrationError (''Failed to connect to '' @ pluginName @ '', '' @ message err)), evs)
      | (Inr conn, evs) \<Rightarrow>
          try_finally
            (case plain_query d catalog_query of
               (Inl err, evs') \<Rightarrow>
                 (Inl (IntegrationError (''Failed to connect to '' @ pluginName @ '', '' @ message err)),
                  evs @ evs')
             | (Inr recordset, evs') \<Rightarrow>
                 (case build_schema recordset of
                    Inl err \<Rightarrow>
                      (Inl (IntegrationError
                              (''Failed to connect to '' @ pluginName @ '', '' @ message err)),
                       evs @ evs')
                  | Inr schema \<Rightarrow> (Inr schema, evs @ evs')))
            (not_awaited (destroyConnection d conn)))"

text \<open>\<open>test\<close>, of the pooled plugin and of the other.\<close>

definition test :: "'rs driver \<Rightarrow> datasourceConfiguration \<Rightarrow> unit outcome" where
  "test d datasourceConfiguration =
     (case createConnection d datasourceConfiguration connectionTimeoutMillis_default of
        (Inl err, evs) \<Rightarrow> (Inl err, evs)
      | (Inr conn, evs) \<Rightarrow>
          try_finally
            (case executeQuery (plain_query d probe_query) of
               (Inl err, evs') \<Rightarrow>
                 (Inl (IntegrationError
                         (''Test '' @ pluginName @ '' connection failed, '' @ message err)),
                  evs @ evs')
             | (Inr rs, evs') \<Rightarrow> (Inr (), evs @ evs'))
            (not_awaited (swallow (destroyConnection d conn))))"

definition test_unpooled :: "'rs driver \<Rightarrow> datasourceConfiguration \<Rightarrow> unit outcome" where
  "test_unpooled d datasourceConfiguration =
     (case createConnection_unpooled d datasourceConfiguration connectionTimeoutMillis_default of
        (Inl err, evs) \<Rightarrow>
          (Inl (IntegrationError
                  (''Test '' @ pluginName @ '' connection failed, '' @ message err)), evs)
      | (Inr conn, evs) \<Rightarrow>
          try_finally
            (case plain_query d probe_query of
               (Inl err, evs') \<Rightarrow>
                 (Inl (IntegrationError
                         (''Test '' @ pluginName @ '' connection failed, '' @ message err)),
                  evs @ evs')
             | (Inr rs, evs') \<Rightarrow> (Inr (), evs @ evs'))
            (not_awaited (destroyConnection d conn)))"

section \<open>Sample inputs\<close>

text \<open>Sample data for the closed examples below: a context with two variables and an
  evaluator that looks every expression up among them.\<close>

definition example_context :: "(string \<times> jsval) list executionContext" where
  "example_context =
     \<lparr>globals = [(''id'', JNum 5), (''name'', JStr ''ann'')], preparedStatementContext = []\<rparr>"

definition example_resolution :: "string \<Rightarrow> (string \<times> jsval) list resolutionContext" where
  "example_resolution template =
     \<lparr>actionConfiguration = \<lparr>body = Some template, usePreparedSql = Some True\<rparr>,
      context' = example_context, property = ''body'', files = None, escapeStrings = False\<rparr>"

definition evaluate_globals ::
  "string \<Rightarrow> (string \<times> jsval) list executionContext \<Rightarrow> (string \<rightharpoonup> string) \<Rightarrow> bool
     \<Rightarrow> error + (string \<rightharpoonup> jsval)" where
  "evaluate_globals template ctx fs esc = Inr (map_of (globals ctx))"

definition no_super :: "(string \<times> jsval) list resolutionContext
     \<Rightarrow> error + jsval \<times> (string \<times> jsval) list executionContext" where
  "no_super rc = Inl (ForeignError ''legacy path'')"

definition example_config :: datasourceConfiguration where
  "example_config =
     \<lparr>endpoint = Some \<lparr>host = Some ''db.example'', port = Some 1433\<rparr>,
      authentication =
        Some \<lparr>username = Some ''sa'', password = Some ''secret'',
              custom = Some \<lparr>databaseName = Some \<lparr>value' = Some ''shop''\<rparr>\<rparr>\<rparr>,
      connection = None\<rparr>"

text \<open>A driver that connects, answers every query with the same record set, and closes.\<close>

definition example_driver :: "'rs \<Rightarrow> 'rs driver" where
  "example_driver rs = \<lparr>connect = (\<lambda>cfg. None), query = (\<lambda>q inputs. Inr rs), close = None\<rparr>"

definition example_rows :: "catalog_row list" where
  "example_rows =
     [\<lparr>table_name = ''Users'', column_name = ''id'', data_type = ''int''\<rparr>,
      \<lparr>table_name = ''Users'', column_name = ''name'', data_type = ''varchar''\<rparr>,
      \<lparr>table_name = ''Orders'', column_name = ''id'', data_type = ''int''\<rparr>]"

definition example_sqlConfig :: "string option \<Rightarrow> sqlConfig" where
  "example_sqlConfig h =
     \<lparr>user = Some ''sa'', password = Some ''secret'', database = ''shop'', server = h,
      port = Some 1433, requestTimeout = 30000, trustServerCertificate = True, encrypt = False\<rparr>"

text \<open>A driver that connects, fails every query, and fails to close.\<close>

definition failing_driver :: "'rs driver" where
  "failing_driver =
     \<lparr>connect = (\<lambda>cfg. None), query = (\<lambda>q inputs. Inl ''Incorrect syntax''),
      close = Some ''socket hang up''\<rparr>"

definition constructor_rows :: "catalog_row list" where
  "constructor_rows = [\<lparr>table_name = ''constructor'', column_name = ''id'', data_type = ''int''\<rparr>]"

definition numbered_rows :: "catalog_row list" where
  "numbered_rows =
     [\<lparr>table_name = ''b'', column_name = ''id'', data_type = ''int''\<rparr>,
      \<lparr>table_name = ''10'', column_name = ''id'', data_type = ''int''\<rparr>,
      \<lparr>table_name = ''2'', column_name = ''id'', data_type = ''int''\<rparr>]"

section \<open>Notions used in the statements\<close>

text \<open>
  The elements of a list in the order in which each is met for the first time, those
  in \<open>seen\<close> counting as already met.
\<close>

fun first_encounters :: "'a list \<Rightarrow> 'a list \<Rightarrow> 'a list" where
  "first_encounters seen [] = []"
| "first_encounters seen (x # xs) =
     (if x \<in> set seen then first_encounters seen xs else x # first_encounters (seen @ [x]) xs)"

text \<open>
  What the loop keeps true of \<open>tablesMap\<close>: every key is there once, and the table
  stored under a key carries that key as its name.
\<close>

definition well_named :: "table js_object \<Rightarrow> bool" where
  "well_named tm \<longleftrightarrow> distinct (map fst tm) \<and> list_all (\<lambda>(k, t). name t = k) tm"

text \<open>The columns the rows of one table contribute, in the order of the rows.\<close>

definition columns_of :: "string \<Rightarrow> catalog_row list \<Rightarrow> column list" where
  "columns_of k rows =
     map (\<lambda>row. Column (column_name row) (data_type row)) (filter (\<lambda>row. table_name row = k) rows)"

section \<open>Properties of number formatting\<close>

lemma digit_char_inj:
  "a < 10 \<Longrightarrow> b < 10 \<Longrightarrow> digit_char a = digit_char b \<Longrightarrow> a = b"
proof -
  assume a: "a < 10" and b: "b < 10" and eq: "digit_char a = digit_char b"
  have d: "distinct ''0123456789''" by simp
  have "a < length ''0123456789''" "b < length ''0123456789''" using a b by simp_all
  with d eq show "a = b"
    unfolding digit_char_def by (simp only: nth_eq_iff_index_eq)
qed

lemma number_toString_nonempty: "number_toString n \<noteq> []"
  by (subst number_toString.simps) simp

lemma number_toString_length_one:
  "length (number_toString n) = Suc 0 \<longleftrightarrow> n < 10"
proof
  assume l: "length (number_toString n) = Suc 0"
  show "n < 10"
  proof (rule ccontr)
    assume "\<not> n < 10"
    then have "number_toString n = number_toString (n div 10) @ [digit_char (n mod 10)]"
      by (subst number_toString.simps) simp
    with l have "number_toString (n div 10) = []" by simp
    with number_toString_nonempty show False by blast
  qed
next
  assume "n < 10"
  then show "length (number_toString n) = Suc 0"
    by (subst number_toString.simps) simp
qed

lemma number_toString_inj:
  "number_toString a = number_toString b \<Longrightarrow> a = b"
proof (induction a arbitrary: b rule: number_toString.induct)
  case (1 n)
  show ?case
  proof (cases "n < 10")
    case True
    then have "length (number_toString n) = Suc 0"
      by (simp add: number_toString_length_one)
    with "1.prems" have "length (number_toString b) = Suc 0" by simp
    then have b: "b < 10" by (simp add: number_toString_length_one)
    from True have "number_toString n = [digit_char n]"
      by (subst number_toString.simps) simp
    moreover from b have "number_toString b = [digit_char b]"
      by (subst number_toString.simps) simp
    ultimately have "digit_char n = digit_char b" using "1.prems" by simp
    with True b show ?thesis by (rule digit_char_inj)
  next
    case False
    then have "length (number_toString n) \<noteq> Suc 0"
      by (simp add: number_toString_length_one)
    with "1.prems" have "length (number_toString b) \<noteq> Suc 0" by simp
    then have b: "\<not> b < 10" by (simp add: number_toString_length_one)
    from False have en: "number_toString n = number_toString (n div 10) @ [digit_char (n mod 10)]"
      by (subst number_toString.simps) simp
    from b have eb: "number_toString b = number_toString (b div 10) @ [digit_char (b mod 10)]"
      by (subst number_toString.simps) simp
    from en eb "1.prems" have pre: "number_toString (n div 10) = number_toString (b div 10)"
      and lastd: "digit_char (n mod 10) = digit_char (b mod 10)" by simp_all
    from "1.IH" [OF False pre] have q: "n div 10 = b div 10" .
    have "n mod 10 = b mod 10"
      by (rule digit_char_inj [OF _ _ lastd]) simp_all
    with q show ?thesis
      by (metis div_mult_mod_eq)
  qed
qed

lemma placeholder_inj: "placeholder a = placeholder b \<longleftrightarrow> a = b"
  by (auto simp: placeholder_def dest: number_toString_inj)

lemma param_name_inj: "param_name a = param_name b \<longleftrightarrow> a = b"
  by (auto simp: param_name_def dest: number_toString_inj)

lemma placeholder_param_name: "placeholder n = CHR ''@'' # param_name n"
  by (simp add: placeholder_def param_name_def)

section \<open>Properties of the binding resolver\<close>

lemma bind_loop_context:
  "bind_loop brs occs (m, ctx, n) = (m', ctx', n') \<Longrightarrow>
     ctx' = ctx\<lparr>preparedStatementContext :=
                preparedStatementContext ctx @ map (lookup_binding brs) occs\<rparr>
     \<and> n' = n + length occs"
proof (induction occs arbitrary: m ctx n)
  case Nil
  then show ?case by simp
next
  case (Cons e es)
  from Cons.prems Cons.IH show ?case by fastforce
qed

lemma assign_property_other [simp]:
  "e \<noteq> k \<Longrightarrow> assign_property m k v e = m e"
  by (simp add: assign_property_def)

lemma assign_property_same [simp]:
  "k \<noteq> ''__proto__'' \<Longrightarrow> assign_property m k v k = Some v"
  by (simp add: assign_property_def)

lemma dom_assign_property:
  "dom (assign_property m k v) = dom m \<union> ({k} - {''__proto__''})"
  by (auto simp: assign_property_def)

lemma bind_loop_step:
  "bind_loop brs (x # xs) (m, ctx, n) = (m', ctx', n') \<Longrightarrow>
     bind_loop brs xs (assign_property m x (placeholder n),
       ctx\<lparr>preparedStatementContext :=
             preparedStatementContext ctx @ [lookup_binding brs x]\<rparr>, n + 1) = (m', ctx', n')"
  by simp

lemma bind_loop_untouched:
  "bind_loop brs occs (m, ctx, n) = (m', ctx', n') \<Longrightarrow> e \<notin> set occs \<Longrightarrow> m' e = m e"
proof (induction occs arbitrary: m ctx n)
  case Nil
  then show ?case by simp
next
  case (Cons x xs)
  from Cons.prems have ne: "e \<noteq> x" "e \<notin> set xs" by auto
  from Cons.IH [OF bind_loop_step [OF Cons.prems(1)] ne(2)] ne(1) show ?case by simp
qed

lemma bind_loop_dom:
  "bind_loop brs occs (m, ctx, n) = (m', ctx', n') \<Longrightarrow>
     dom m' = dom m \<union> (set occs - {''__proto__''})"
proof (induction occs arbitrary: m ctx n)
  case Nil
  then show ?case by simp
next
  case (Cons x xs)
  have "dom m' = dom (assign_property m x (placeholder n)) \<union> (set xs - {''__proto__''})"
    by (rule Cons.IH [OF bind_loop_step [OF Cons.prems]])
  then show ?case by (auto simp: dom_assign_property)
qed

lemma bind_loop_last_wins:
  "bind_loop brs occs (m, ctx, n) = (m', ctx', n') \<Longrightarrow> j < length occs \<Longrightarrow>
   (\<forall>l. j < l \<and> l < length occs \<longrightarrow> occs ! l \<noteq> occs ! j) \<Longrightarrow>
   occs ! j \<noteq> ''__proto__'' \<Longrightarrow>
   m' (occs ! j) = Some (placeholder (n + j))"
proof (induction occs arbitrary: m ctx n j)
  case Nil
  then show ?case by simp
next
  case (Cons x xs)
  note run = bind_loop_step [OF Cons.prems(1)]
  show ?case
  proof (cases j)
    case 0
    have "x \<notin> set xs"
    proof
      assume "x \<in> set xs"
      then obtain l where "l < length xs" "xs ! l = x"
        by (auto simp: in_set_conv_nth)
      with Cons.prems(3) 0 show False
        by (auto dest: spec [of _ "Suc l"])
    qed
    from bind_loop_untouched [OF run this] 0 Cons.prems(4) show ?thesis by simp
  next
    case (Suc j')
    with Cons.prems(2) have "j' < length xs" by simp
    moreover have "\<forall>l. j' < l \<and> l < length xs \<longrightarrow> xs ! l \<noteq> xs ! j'"
    proof (intro allI impI)
      fix l assume "j' < l \<and> l < length xs"
      with Cons.prems(3) Suc show "xs ! l \<noteq> xs ! j'"
        by (auto dest: spec [of _ "Suc l"])
    qed
    moreover from Cons.prems(4) Suc have "xs ! j' \<noteq> ''__proto__''" by simp
    ultimately have "m' (xs ! j') = Some (placeholder (n + 1 + j'))"
      using Cons.IH [OF run] by blast
    with Suc show ?thesis by simp
  qed
qed

lemma last_occurrence_exists:
  assumes "i < length xs"
  shows "\<exists>j. i \<le> j \<and> j < length xs \<and> xs ! j = xs ! i \<and>
             (\<forall>l. j < l \<and> l < length xs \<longrightarrow> xs ! l \<noteq> xs ! i)"
proof -
  let ?P = "\<lambda>j. j < length xs \<and> xs ! j = xs ! i"
  have Pi: "?P i" using assms by simp
  have bound: "\<forall>y. ?P y \<longrightarrow> y \<le> length xs" by simp
  have PG: "?P (Greatest ?P)" using GreatestI_nat [of ?P, OF Pi] bound by blast
  have le: "\<And>y. ?P y \<Longrightarrow> y \<le> Greatest ?P"
    using Greatest_le_nat [of ?P] bound by blast
  have "i \<le> Greatest ?P" using le [OF Pi] .
  moreover have "\<forall>l. Greatest ?P < l \<and> l < length xs \<longrightarrow> xs ! l \<noteq> xs ! i"
  proof (intro allI impI notI)
    fix l assume "Greatest ?P < l \<and> l < length xs" and "xs ! l = xs ! i"
    then have "?P l" by simp
    from le [OF this] \<open>Greatest ?P < l \<and> l < length xs\<close> show False by simp
  qed
  ultimately show ?thesis using PG by blast
qed

lemma resolvePrepared_Inr:
  assumes ev: "rab (property_or_empty (body (actionConfiguration rc))) (context' rc)
                 (files_or_empty (files rc)) (escapeStrings rc) = Inr brs"
  shows "\<exists>m. bind_loop brs (ext (property_or_empty (body (actionConfiguration rc))))
               (Map.empty, (context' rc)\<lparr>preparedStatementContext := []\<rparr>, 1)
             = (m, (context' rc)\<lparr>preparedStatementContext :=
                      map (lookup_binding brs) (ext (property_or_empty (body (actionConfiguration rc))))\<rparr>,
                Suc (length (ext (property_or_empty (body (actionConfiguration rc))))))
           \<and> resolvePrepared ext rab render rc
             = Inr (JStr (render (property_or_empty (body (actionConfiguration rc))) m),
                    (context' rc)\<lparr>preparedStatementContext :=
                      map (lookup_binding brs) (ext (property_or_empty (body (actionConfiguration rc))))\<rparr>)"
proof -
  let ?tpl = "property_or_empty (body (actionConfiguration rc))"
  let ?c0 = "(context' rc)\<lparr>preparedStatementContext := []\<rparr>"
  obtain m c n where run: "bind_loop brs (ext ?tpl) (Map.empty, ?c0, 1) = (m, c, n)"
    by (cases "bind_loop brs (ext ?tpl) (Map.empty, ?c0, 1)") blast
  from bind_loop_context [OF run]
  have c: "c = (context' rc)\<lparr>preparedStatementContext := map (lookup_binding brs) (ext ?tpl)\<rparr>"
    and n: "n = Suc (length (ext ?tpl))" by simp_all
  have "resolvePrepared ext rab render rc = Inr (JStr (render ?tpl m), c)"
    using ev run by (simp add: resolvePrepared_def Let_def)
  with run c n show ?thesis by blast
qed

lemma example_globals_eval:
  "evaluate_globals (property_or_empty (body (actionConfiguration (example_resolution t))))
      (context' (example_resolution t)) (files_or_empty (files (example_resolution t)))
      (escapeStrings (example_resolution t))
   = Inr (map_of [(''id'', JNum 5), (''name'', JStr ''ann'')])"
  by (simp add: evaluate_globals_def example_resolution_def example_context_def)

lemma example_scan:
  "extractMustacheStrings_spec ''SELECT * FROM t WHERE id = {{id}} AND name = {{name}}''
     = [''id'', ''name'']"
  by (simp add: extractMustacheStrings_spec_def)

lemma example_prepared:
  "truthy (usePreparedSql (actionConfiguration (example_resolution t)))"
  "property (example_resolution t) = ''body''"
  "property_or_empty (body (actionConfiguration (example_resolution t))) = t"
  "context' (example_resolution t) = example_context"
  by (simp_all add: example_resolution_def property_or_empty_def)

lemma example_scan_twice:
  "extractMustacheStrings_spec ''SELECT {{id}}, {{id}}'' = [''id'', ''id'']"
  by (simp add: extractMustacheStrings_spec_def)

lemma placeholder_values:
  "placeholder (Suc 0) = ''@PARAM_1''" "placeholder (Suc (Suc 0)) = ''@PARAM_2''"
  by (simp_all add: placeholder_def number_toString.simps digit_char_def)

lemma bind_loop_object:
  assumes run: "bind_loop brs occs (m, ctx, n) = (m', ctx', n')"
    and e: "e \<in> set occs" and np: "e \<noteq> ''__proto__''"
  shows "\<exists>j<length occs. occs ! j = e \<and> m' e = Some (placeholder (n + j))"
proof -
  from e obtain i where i: "i < length occs" "occs ! i = e"
    by (auto simp: in_set_conv_nth)
  from last_occurrence_exists [OF i(1)] i(2) obtain j where j: "j < length occs"
    "occs ! j = e" "\<forall>l. j < l \<and> l < length occs \<longrightarrow> occs ! l \<noteq> e"
    by auto
  from j(2,3) have "\<forall>l. j < l \<and> l < length occs \<longrightarrow> occs ! l \<noteq> occs ! j" by simp
  moreover from np j(2) have "occs ! j \<noteq> ''__proto__''" by simp
  ultimately have "m' (occs ! j) = Some (placeholder (n + j))"
    by (rule bind_loop_last_wins [OF run j(1)])
  with j(1,2) show ?thesis by auto
qed

lemma bind_loop_object_inj:
  assumes run: "bind_loop brs occs (Map.empty, ctx, n) = (m', ctx', n')"
  shows "inj_on (\<lambda>e. the (m' e)) (dom m')"
proof (rule inj_onI)
  fix a b assume a: "a \<in> dom m'" and b: "b \<in> dom m'" and eq: "the (m' a) = the (m' b)"
  from bind_loop_dom [OF run] a b
  have "a \<in> set occs" "a \<noteq> ''__proto__''" "b \<in> set occs" "b \<noteq> ''__proto__''" by auto
  from bind_loop_object [OF run this(1,2)] bind_loop_object [OF run this(3,4)]
  obtain j l where j: "occs ! j = a" "m' a = Some (placeholder (n + j))"
    and l: "occs ! l = b" "m' b = Some (placeholder (n + l))" by blast
  from eq j(2) l(2) have "n + j = n + l" by (simp add: placeholder_inj)
  with j(1) l(1) show "a = b" by simp
qed

lemma ran_image_dom: "ran m = (\<lambda>e. the (m e)) ` dom m"
  by (force simp: ran_def dom_def)

lemma bind_loop_object_card:
  assumes run: "bind_loop brs occs (Map.empty, ctx, n) = (m', ctx', n')"
  shows "card (ran m') = card (set occs - {''__proto__''})"
proof -
  have "card (ran m') = card (dom m')"
    unfolding ran_image_dom by (rule card_image [OF bind_loop_object_inj [OF run]])
  with bind_loop_dom [OF run] show ?thesis by simp
qed

lemma bind_loop_object_range:
  assumes run: "bind_loop brs occs (Map.empty, ctx, n) = (m', ctx', n')"
  shows "ran m' \<subseteq> placeholder ` {n ..< n + length occs}"
proof
  fix v assume "v \<in> ran m'"
  then obtain e where e: "m' e = Some v" by (auto simp: ran_def)
  then have "e \<in> dom m'" by auto
  with bind_loop_dom [OF run] have "e \<in> set occs" "e \<noteq> ''__proto__''" by auto
  from bind_loop_object [OF run this] e obtain j where "j < length occs" "v = placeholder (n + j)"
    by auto
  then show "v \<in> placeholder ` {n ..< n + length occs}" by auto
qed

text \<open>
  Claim C1, as stated, fails.  The template \<open>SELECT {{id}}, {{id}}\<close> has \<open>k = 2\<close>
  occurrences and the context gets two values, but the resolver keeps its placeholders in
  the object \<open>bindingResolution\<close>, keyed by the text of the expression: the second
  assignment under \<open>id\<close> replaces the first, the object handed to \<open>renderValue\<close> holds
  the single placeholder \<open>@PARAM_2\<close>, and no \<open>@PARAM_1\<close> is in the string returned.
\<close>

theorem resolver_counts_counterexample:
  "length (extractMustacheStrings_spec ''SELECT {{id}}, {{id}}'') = 2
   \<and> resolveActionConfigurationProperty extractMustacheStrings_spec evaluate_globals
        renderValue_spec no_super (example_resolution ''SELECT {{id}}, {{id}}'')
      = Inr (JStr (renderValue_spec ''SELECT {{id}}, {{id}}''
                     (fst (bind_loop (map_of [(''id'', JNum 5), (''name'', JStr ''ann'')])
                            (extractMustacheStrings_spec ''SELECT {{id}}, {{id}}'')
                            (Map.empty, example_context\<lparr>preparedStatementContext := []\<rparr>, 1)))),
             example_context\<lparr>preparedStatementContext := [JNum 5, JNum 5]\<rparr>)
   \<and> fst (bind_loop (map_of [(''id'', JNum 5), (''name'', JStr ''ann'')])
            (extractMustacheStrings_spec ''SELECT {{id}}, {{id}}'')
            (Map.empty, example_context\<lparr>preparedStatementContext := []\<rparr>, 1))
      = [''id'' \<mapsto> ''@PARAM_2'']
   \<and> card (ran (fst (bind_loop (map_of [(''id'', JNum 5), (''name'', JStr ''ann'')])
            (extractMustacheStrings_spec ''SELECT {{id}}, {{id}}'')
            (Map.empty, example_context\<lparr>preparedStatementContext := []\<rparr>, 1)))) = 1
   \<and> renderValue_spec ''SELECT {{id}}, {{id}}'' [''id'' \<mapsto> ''@PARAM_2'']
      = ''SELECT @PARAM_2, @PARAM_2''"
proof -
  have obj: "fst (bind_loop (map_of [(''id'', JNum 5), (''name'', JStr ''ann'')])
            (extractMustacheStrings_spec ''SELECT {{id}}, {{id}}'')
            (Map.empty, example_context\<lparr>preparedStatementContext := []\<rparr>, 1))
      = [''id'' \<mapsto> ''@PARAM_2'']"
    by (simp add: example_scan_twice assign_property_def placeholder_values)
  have res: "resolveActionConfigurationProperty extractMustacheStrings_spec evaluate_globals
        renderValue_spec no_super (example_resolution ''SELECT {{id}}, {{id}}'')
      = Inr (JStr (renderValue_spec ''SELECT {{id}}, {{id}}'' [''id'' \<mapsto> ''@PARAM_2'']),
             example_context\<lparr>preparedStatementContext := [JNum 5, JNum 5]\<rparr>)"
    by (simp add: resolveActionConfigurationProperty_def resolvePrepared_def example_prepared
        example_resolution_def evaluate_globals_def example_context_def files_or_empty_def
        example_scan_twice assign_property_def placeholder_values lookup_binding_def
        property_or_empty_def)
  have rendered: "renderValue_spec ''SELECT {{id}}, {{id}}'' [''id'' \<mapsto> ''@PARAM_2'']
      = ''SELECT @PARAM_2, @PARAM_2''"
    by (simp add: renderValue_spec_def)
  have "card (ran [''id'' \<mapsto> ''@PARAM_2'']) = 1" by simp
  with obj res rendered show ?thesis by (simp add: example_scan_twice)
qed

text \<open>
  Claim C1, amended.  On the prepared path (\<open>usePreparedSql\<close> set, property \<open>body\<close>),
  when the evaluator returns, a template whose scan has \<open>k\<close> occurrences makes the
  resolver return the string that \<open>renderValue\<close> makes of the template and the object
  \<open>bindingResolution\<close>, and leave \<open>preparedStatementContext\<close> a list of length \<open>k\<close>
  whose element at position \<open>i\<close> is the evaluated value of occurrence \<open>i\<close>.  The object
  holds one placeholder for each distinct expression text (the text \<open>__proto__\<close> apart,
  under which an object stores no string), each of them one of \<open>@PARAM_1\<close> ...
  \<open>@PARAM_k\<close>.  When the \<open>k\<close> texts are pairwise distinct and none is \<open>__proto__\<close>,
  the placeholders are exactly the \<open>k\<close> strings \<open>@PARAM_1\<close> ... \<open>@PARAM_k\<close>, and the
  one stored for the occurrence of position \<open>i\<close> is \<open>@PARAM_i\<close>.  Positions are counted
  from 0 in the statement, so the placeholder of position \<open>i\<close> has the number \<open>Suc i\<close>.
\<close>

theorem resolver_counts:
  assumes prepared: "truthy (usePreparedSql (actionConfiguration rc))"
    and onbody: "property rc = ''body''"
    and ev: "resolveAllBindings (property_or_empty (body (actionConfiguration rc))) (context' rc)
                 (files_or_empty (files rc)) (escapeStrings rc) = Inr bindingResolutions"
    and occs: "occs = extractMustacheStrings (property_or_empty (body (actionConfiguration rc)))"
  shows "\<exists>bindingResolution ctx.
           resolveActionConfigurationProperty extractMustacheStrings resolveAllBindings
               renderValue super rc
             = Inr (JStr (renderValue (property_or_empty (body (actionConfiguration rc)))
                      bindingResolution), ctx)
         \<and> ctx = (context' rc)\<lparr>preparedStatementContext :=
                     map (lookup_binding bindingResolutions) occs\<rparr>
         \<and> length (preparedStatementContext ctx) = length occs
         \<and> (\<forall>i<length occs.
               preparedStatementContext ctx ! i = lookup_binding bindingResolutions (occs ! i))
         \<and> dom bindingResolution = set occs - {''__proto__''}
         \<and> card (ran bindingResolution) = card (set occs - {''__proto__''})
         \<and> ran bindingResolution
             \<subseteq> (\<lambda>n. ''@PARAM_'' @ number_toString n) ` {1 ..< Suc (length occs)}
         \<and> (distinct occs \<and> ''__proto__'' \<notin> set occs \<longrightarrow>
               card (ran bindingResolution) = length occs
             \<and> ran bindingResolution
                 = (\<lambda>n. ''@PARAM_'' @ number_toString n) ` {1 ..< Suc (length occs)}
             \<and> (\<forall>i<length occs.
                   bindingResolution (occs ! i) = Some (''@PARAM_'' @ number_toString (Suc i))))"
proof -
  let ?c0 = "(context' rc)\<lparr>preparedStatementContext := []\<rparr>"
  let ?ctx = "(context' rc)\<lparr>preparedStatementContext := map (lookup_binding bindingResolutions) occs\<rparr>"
  let ?ph = "\<lambda>n. ''@PARAM_'' @ number_toString n"
  have ph: "placeholder = ?ph" by (rule ext) (simp add: placeholder_def)
  from resolvePrepared_Inr [where rab = resolveAllBindings and rc = rc and brs = bindingResolutions
      and ext = extractMustacheStrings and render = renderValue, OF ev] occs
  obtain m where run: "bind_loop bindingResolutions occs (Map.empty, ?c0, 1)
        = (m, ?ctx, Suc (length occs))"
    and res: "resolvePrepared extractMustacheStrings resolveAllBindings renderValue rc
        = Inr (JStr (renderValue (property_or_empty (body (actionConfiguration rc))) m), ?ctx)"
    by auto
  have r: "resolveActionConfigurationProperty extractMustacheStrings resolveAllBindings
               renderValue super rc
           = Inr (JStr (renderValue (property_or_empty (body (actionConfiguration rc))) m), ?ctx)"
    using prepared onbody res by (simp add: resolveActionConfigurationProperty_def)
  have len: "length (preparedStatementContext ?ctx) = length occs" by simp
  have pos: "\<forall>i<length occs.
               preparedStatementContext ?ctx ! i = lookup_binding bindingResolutions (occs ! i)"
    by simp
  have d: "dom m = set occs - {''__proto__''}"
    using bind_loop_dom [OF run] by simp
  have c: "card (ran m) = card (set occs - {''__proto__''})"
    by (rule bind_loop_object_card [OF run])
  have sub: "ran m \<subseteq> ?ph ` {1 ..< Suc (length occs)}"
    using bind_loop_object_range [OF run] by (simp add: ph)
  have dist: "distinct occs \<and> ''__proto__'' \<notin> set occs \<longrightarrow>
               card (ran m) = length occs
             \<and> ran m = ?ph ` {1 ..< Suc (length occs)}
             \<and> (\<forall>i<length occs. m (occs ! i) = Some (?ph (Suc i)))"
  proof (intro impI)
    assume a: "distinct occs \<and> ''__proto__'' \<notin> set occs"
    then have dis: "distinct occs" and noproto: "''__proto__'' \<notin> set occs" by simp_all
    have each: "\<forall>i<length occs. m (occs ! i) = Some (?ph (Suc i))"
    proof (intro allI impI)
      fix i assume i: "i < length occs"
      have "\<forall>l. i < l \<and> l < length occs \<longrightarrow> occs ! l \<noteq> occs ! i"
        using dis i by (auto simp: nth_eq_iff_index_eq)
      moreover from noproto i have "occs ! i \<noteq> ''__proto__''" by (metis nth_mem)
      ultimately have "m (occs ! i) = Some (placeholder (1 + i))"
        by (rule bind_loop_last_wins [OF run i])
      then show "m (occs ! i) = Some (?ph (Suc i))" by (simp add: placeholder_def)
    qed
    have k: "card (ran m) = length occs"
      using c dis noproto by (simp add: distinct_card)
    have "?ph ` {1 ..< Suc (length occs)} \<subseteq> ran m"
    proof
      fix v assume "v \<in> ?ph ` {1 ..< Suc (length occs)}"
      then obtain n where n: "1 \<le> n" "n < Suc (length occs)" "v = ?ph n" by auto
      then obtain i where i: "n = Suc i" "i < length occs" by (cases n) auto
      with each n(3) have "m (occs ! i) = Some v" by simp
      then show "v \<in> ran m" by (auto simp: ran_def)
    qed
    with sub have "ran m = ?ph ` {1 ..< Suc (length occs)}" by auto
    with k each show "card (ran m) = length occs
             \<and> ran m = ?ph ` {1 ..< Suc (length occs)}
             \<and> (\<forall>i<length occs. m (occs ! i) = Some (?ph (Suc i)))" by simp
  qed
  show ?thesis
  proof (intro exI conjI)
    show "resolveActionConfigurationProperty extractMustacheStrings resolveAllBindings
               renderValue super rc
           = Inr (JStr (renderValue (property_or_empty (body (actionConfiguration rc))) m), ?ctx)"
      by (rule r)
    show "?ctx = (context' rc)\<lparr>preparedStatementContext :=
                     map (lookup_binding bindingResolutions) occs\<rparr>"
      by (rule refl)
    show "length (preparedStatementContext ?ctx) = length occs" by (rule len)
    show "\<forall>i<length occs.
               preparedStatementContext ?ctx ! i = lookup_binding bindingResolutions (occs ! i)"
      by (rule pos)
    show "dom m = set occs - {''__proto__''}" by (rule d)
    show "card (ran m) = card (set occs - {''__proto__''})" by (rule c)
    show "ran m \<subseteq> ?ph ` {1 ..< Suc (length occs)}" by (rule sub)
    show "distinct occs \<and> ''__proto__'' \<notin> set occs \<longrightarrow>
               card (ran m) = length occs
             \<and> ran m = ?ph ` {1 ..< Suc (length occs)}
             \<and> (\<forall>i<length occs. m (occs ! i) = Some (?ph (Suc i)))"
      by (rule dist)
  qed
qed

text \<open>
  Claim C1, witness.  The example of the spec: two occurrences with different texts, two
  values in order, two placeholders, and the string returned.
\<close>

theorem resolver_counts_witness:
  "truthy (usePreparedSql (actionConfiguration
      (example_resolution ''SELECT * FROM t WHERE id = {{id}} AND name = {{name}}'')))
   \<and> property (example_resolution ''SELECT * FROM t WHERE id = {{id}} AND name = {{name}}'') = ''body''
   \<and> distinct (extractMustacheStrings_spec ''SELECT * FROM t WHERE id = {{id}} AND name = {{name}}'')
   \<and> ''__proto__'' \<notin> set (extractMustacheStrings_spec
         ''SELECT * FROM t WHERE id = {{id}} AND name = {{name}}'')
   \<and> resolveActionConfigurationProperty extractMustacheStrings_spec evaluate_globals
        renderValue_spec no_super
        (example_resolution ''SELECT * FROM t WHERE id = {{id}} AND name = {{name}}'')
      = Inr (JStr ''SELECT * FROM t WHERE id = @PARAM_1 AND name = @PARAM_2'',
             example_context\<lparr>preparedStatementContext := [JNum 5, JStr ''ann'']\<rparr>)
   \<and> (\<exists>bindingResolution.
         resolveActionConfigurationProperty extractMustacheStrings_spec evaluate_globals
            renderValue_spec no_super
            (example_resolution ''SELECT * FROM t WHERE id = {{id}} AND name = {{name}}'')
           = Inr (JStr (renderValue_spec ''SELECT * FROM t WHERE id = {{id}} AND name = {{name}}''
                          bindingResolution),
                  example_context\<lparr>preparedStatementContext := [JNum 5, JStr ''ann'']\<rparr>)
         \<and> bindingResolution ''id'' = Some ''@PARAM_1''
         \<and> bindingResolution ''name'' = Some ''@PARAM_2''
         \<and> dom bindingResolution = {''id'', ''name''}
         \<and> card (ran bindingResolution) = 2)"
proof -
  let ?t = "''SELECT * FROM t WHERE id = {{id}} AND name = {{name}}''"
  let ?rc = "example_resolution ?t"
  let ?occs = "[''id'', ''name'']"
  have h4: "?occs = extractMustacheStrings_spec (property_or_empty (body (actionConfiguration ?rc)))"
    unfolding example_prepared by (simp only: example_scan)
  have dis: "distinct ?occs \<and> ''__proto__'' \<notin> set ?occs" by simp
  from resolver_counts [where extractMustacheStrings = extractMustacheStrings_spec
      and resolveAllBindings = evaluate_globals and renderValue = renderValue_spec
      and super = no_super and rc = ?rc, OF example_prepared(1,2) example_globals_eval h4]
  obtain m ctx where
    r0: "resolveActionConfigurationProperty extractMustacheStrings_spec evaluate_globals
            renderValue_spec no_super ?rc
          = Inr (JStr (renderValue_spec (property_or_empty (body (actionConfiguration ?rc))) m), ctx)"
    and ctx: "ctx = (context' ?rc)\<lparr>preparedStatementContext :=
                    map (lookup_binding (map_of [(''id'', JNum 5), (''name'', JStr ''ann'')])) ?occs\<rparr>"
    and d: "dom m = set ?occs - {''__proto__''}"
    and e: "distinct ?occs \<and> ''__proto__'' \<notin> set ?occs \<longrightarrow>
               card (ran m) = length ?occs
             \<and> ran m = (\<lambda>n. ''@PARAM_'' @ number_toString n) ` {1 ..< Suc (length ?occs)}
             \<and> (\<forall>i<length ?occs. m (?occs ! i) = Some (''@PARAM_'' @ number_toString (Suc i)))"
    by (elim exE conjE) blast
  from e dis have c0: "card (ran m) = length ?occs"
    and each: "\<forall>i<length ?occs. m (?occs ! i) = Some (''@PARAM_'' @ number_toString (Suc i))"
    by blast+
  from c0 have c: "card (ran m) = 2" by simp
  from each have "0 < length ?occs \<longrightarrow> m (?occs ! 0) = Some (''@PARAM_'' @ number_toString (Suc 0))"
    by (rule spec)
  then have m1: "m ''id'' = Some ''@PARAM_1''"
    by (simp add: number_toString.simps digit_char_def)
  from each have "1 < length ?occs \<longrightarrow> m (?occs ! 1) = Some (''@PARAM_'' @ number_toString (Suc 1))"
    by (rule spec)
  then have m2: "m ''name'' = Some ''@PARAM_2''"
    by (simp add: number_toString.simps digit_char_def)
  from d have d': "dom m = {''id'', ''name''}" by auto
  have r': "resolveActionConfigurationProperty extractMustacheStrings_spec evaluate_globals
            renderValue_spec no_super ?rc
          = Inr (JStr (renderValue_spec ?t m),
                 example_context\<lparr>preparedStatementContext := [JNum 5, JStr ''ann'']\<rparr>)"
    using r0 ctx by (simp add: example_prepared lookup_binding_def)
  have s: "renderValue_spec ?t m = ''SELECT * FROM t WHERE id = @PARAM_1 AND name = @PARAM_2''"
    by (simp add: renderValue_spec_def m1 m2)
  have r'': "resolveActionConfigurationProperty extractMustacheStrings_spec evaluate_globals
            renderValue_spec no_super ?rc
          = Inr (JStr ''SELECT * FROM t WHERE id = @PARAM_1 AND name = @PARAM_2'',
                 example_context\<lparr>preparedStatementContext := [JNum 5, JStr ''ann'']\<rparr>)"
    using r' by (simp only: s)
  have ex: "\<exists>bindingResolution.
         resolveActionConfigurationProperty extractMustacheStrings_spec evaluate_globals
            renderValue_spec no_super ?rc
           = Inr (JStr (renderValue_spec ?t bindingResolution),
                  example_context\<lparr>preparedStatementContext := [JNum 5, JStr ''ann'']\<rparr>)
         \<and> bindingResolution ''id'' = Some ''@PARAM_1''
         \<and> bindingResolution ''name'' = Some ''@PARAM_2''
         \<and> dom bindingResolution = {''id'', ''name''}
         \<and> card (ran bindingResolution) = 2"
    using r' m1 m2 d' c by blast
  have sc: "distinct (extractMustacheStrings_spec ?t) \<and> ''__proto__'' \<notin> set (extractMustacheStrings_spec ?t)"
    by (simp only: example_scan) simp
  from example_prepared(1,2) [of ?t] sc r'' ex show ?thesis by (elim conjE) (intro conjI)
qed

text \<open>
  Claim C2, as stated, fails.  The object \<open>bindingResolution\<close> is keyed by the text of the
  expression, so a later occurrence of the same text overwrites the placeholder of an
  earlier one: in \<open>SELECT {{id}}, {{id}}\<close> both occurrences are rendered as \<open>@PARAM_2\<close>,
  not as \<open>@PARAM_1\<close> and \<open>@PARAM_2\<close>, while the context still gets two slots.
\<close>

theorem resolver_duplicates_counterexample:
  "resolveActionConfigurationProperty extractMustacheStrings_spec evaluate_globals
      renderValue_spec no_super (example_resolution ''SELECT {{id}}, {{id}}'')
     = Inr (JStr ''SELECT @PARAM_2, @PARAM_2'',
            example_context\<lparr>preparedStatementContext := [JNum 5, JNum 5]\<rparr>)
   \<and> resolveActionConfigurationProperty extractMustacheStrings_spec evaluate_globals
      renderValue_spec no_super (example_resolution ''SELECT {{id}}, {{id}}'')
     \<noteq> Inr (JStr ''SELECT @PARAM_1, @PARAM_2'',
            example_context\<lparr>preparedStatementContext := [JNum 5, JNum 5]\<rparr>)
   \<and> fst (bind_loop (map_of [(''id'', JNum 5), (''name'', JStr ''ann'')]) [''id'', ''id'']
           (Map.empty, example_context, 1)) ''id'' = Some ''@PARAM_2''"
  by (simp add: resolveActionConfigurationProperty_def resolvePrepared_def example_resolution_def
      example_context_def evaluate_globals_def extractMustacheStrings_spec_def renderValue_spec_def
      property_or_empty_def files_or_empty_def lookup_binding_def placeholder_def
      number_toString.simps digit_char_def)

text \<open>
  Claim C2, amended.  Every occurrence gets its own slot in the prepared-statement
  context and advances the counter (no deduplication of slots), but the string is
  rendered from an object keyed by expression text: every occurrence of a text is given the
  placeholder generated for the last occurrence of that text.  When no expression text
  occurs twice, occurrence \<open>i\<close> is rendered as \<open>@PARAM_i\<close>.  (The statement leaves
  out templates with the expression text \<open>__proto__\<close>.)
\<close>

theorem resolver_occurrences:
  assumes prepared: "truthy (usePreparedSql (actionConfiguration rc))"
    and onbody: "property rc = ''body''"
    and ev: "resolveAllBindings (property_or_empty (body (actionConfiguration rc))) (context' rc)
                 (files_or_empty (files rc)) (escapeStrings rc) = Inr bindingResolutions"
    and occs: "occs = extractMustacheStrings (property_or_empty (body (actionConfiguration rc)))"
    and noproto: "''__proto__'' \<notin> set occs"
  shows "\<exists>bindingResolution ctx.
           resolveActionConfigurationProperty extractMustacheStrings resolveAllBindings
               renderValue super rc
             = Inr (JStr (renderValue (property_or_empty (body (actionConfiguration rc)))
                      bindingResolution), ctx)
         \<and> preparedStatementContext ctx = map (lookup_binding bindingResolutions) occs
         \<and> dom bindingResolution = set occs
         \<and> (\<forall>i<length occs. \<exists>j. i \<le> j \<and> j < length occs \<and> occs ! j = occs ! i
               \<and> (\<forall>l. j < l \<and> l < length occs \<longrightarrow> occs ! l \<noteq> occs ! i)
               \<and> bindingResolution (occs ! i) = Some (placeholder (Suc j)))
         \<and> (distinct occs \<longrightarrow>
               (\<forall>i<length occs. bindingResolution (occs ! i) = Some (placeholder (Suc i))))"
proof -
  let ?c0 = "(context' rc)\<lparr>preparedStatementContext := []\<rparr>"
  let ?ctx = "(context' rc)\<lparr>preparedStatementContext := map (lookup_binding bindingResolutions) occs\<rparr>"
  from resolvePrepared_Inr [where rab = resolveAllBindings and rc = rc and brs = bindingResolutions
      and ext = extractMustacheStrings and render = renderValue, OF ev] occs
  obtain m where run: "bind_loop bindingResolutions occs (Map.empty, ?c0, 1)
        = (m, ?ctx, Suc (length occs))"
    and res: "resolvePrepared extractMustacheStrings resolveAllBindings renderValue rc
        = Inr (JStr (renderValue (property_or_empty (body (actionConfiguration rc))) m), ?ctx)"
    by auto
  have r: "resolveActionConfigurationProperty extractMustacheStrings resolveAllBindings
               renderValue super rc
           = Inr (JStr (renderValue (property_or_empty (body (actionConfiguration rc))) m), ?ctx)"
    using prepared onbody res by (simp add: resolveActionConfigurationProperty_def)
  have slots: "preparedStatementContext ?ctx = map (lookup_binding bindingResolutions) occs"
    by simp
  have d: "dom m = set occs"
    using bind_loop_dom [OF run] noproto by simp
  have lastwins: "\<forall>i<length occs. \<exists>j. i \<le> j \<and> j < length occs \<and> occs ! j = occs ! i
               \<and> (\<forall>l. j < l \<and> l < length occs \<longrightarrow> occs ! l \<noteq> occs ! i)
               \<and> m (occs ! i) = Some (placeholder (Suc j))"
  proof (intro allI impI)
    fix i assume "i < length occs"
    from last_occurrence_exists [OF this] obtain j where j: "i \<le> j" "j < length occs"
      "occs ! j = occs ! i" "\<forall>l. j < l \<and> l < length occs \<longrightarrow> occs ! l \<noteq> occs ! i"
      by blast
    from j(3,4) have "\<forall>l. j < l \<and> l < length occs \<longrightarrow> occs ! l \<noteq> occs ! j" by simp
    moreover from noproto j(2) have "occs ! j \<noteq> ''__proto__''" by (metis nth_mem)
    ultimately have "m (occs ! j) = Some (placeholder (1 + j))"
      by (rule bind_loop_last_wins [OF run j(2)])
    with j(3)
    have "m (occs ! i) = Some (placeholder (Suc j))" by simp
    with j show "\<exists>j. i \<le> j \<and> j < length occs \<and> occs ! j = occs ! i
               \<and> (\<forall>l. j < l \<and> l < length occs \<longrightarrow> occs ! l \<noteq> occs ! i)
               \<and> m (occs ! i) = Some (placeholder (Suc j))" by blast
  qed
  have dist: "distinct occs \<longrightarrow> (\<forall>i<length occs. m (occs ! i) = Some (placeholder (Suc i)))"
  proof (intro allI impI)
    fix i assume dis: "distinct occs" and i: "i < length occs"
    have "\<forall>l. i < l \<and> l < length occs \<longrightarrow> occs ! l \<noteq> occs ! i"
      using dis i by (auto simp: nth_eq_iff_index_eq)
    moreover from noproto i have "occs ! i \<noteq> ''__proto__''" by (metis nth_mem)
    ultimately have "m (occs ! i) = Some (placeholder (1 + i))"
      by (rule bind_loop_last_wins [OF run i])
    then show "m (occs ! i) = Some (placeholder (Suc i))" by simp
  qed
  from r slots d lastwins dist show ?thesis by blast
qed

text \<open>Claim C2, witness.  A template with a repeated expression, and one without.\<close>

theorem resolver_occurrences_witness:
  "(\<exists>bindingResolution ctx.
      resolveActionConfigurationProperty extractMustacheStrings_spec evaluate_globals
          renderValue_spec no_super (example_resolution ''SELECT {{id}}, {{id}}'')
        = Inr (JStr (renderValue_spec ''SELECT {{id}}, {{id}}'' bindingResolution), ctx)
      \<and> preparedStatementContext ctx = [JNum 5, JNum 5]
      \<and> bindingResolution ''id'' = Some ''@PARAM_2'')
   \<and> (\<exists>bindingResolution ctx.
      resolveActionConfigurationProperty extractMustacheStrings_spec evaluate_globals
          renderValue_spec no_super
          (example_resolution ''SELECT * FROM t WHERE id = {{id}} AND name = {{name}}'')
        = Inr (JStr (renderValue_spec ''SELECT * FROM t WHERE id = {{id}} AND name = {{name}}''
                 bindingResolution), ctx)
      \<and> preparedStatementContext ctx = [JNum 5, JStr ''ann'']
      \<and> bindingResolution ''id'' = Some ''@PARAM_1''
      \<and> bindingResolution ''name'' = Some ''@PARAM_2'')"
proof
  let ?t = "''SELECT {{id}}, {{id}}''"
  let ?rc = "example_resolution ?t"
  have occs: "[''id'', ''id''] = extractMustacheStrings_spec (property_or_empty (body (actionConfiguration ?rc)))"
    by (simp only: example_prepared example_scan_twice)
  have noproto: "''__proto__'' \<notin> set [''id'', ''id'']" by simp
  from resolver_occurrences [where extractMustacheStrings = extractMustacheStrings_spec
      and resolveAllBindings = evaluate_globals and renderValue = renderValue_spec
      and super = no_super and rc = ?rc,
      OF example_prepared(1) example_prepared(2) example_globals_eval occs noproto]
  obtain m ctx where
    r: "resolveActionConfigurationProperty extractMustacheStrings_spec evaluate_globals
          renderValue_spec no_super ?rc
        = Inr (JStr (renderValue_spec (property_or_empty (body (actionConfiguration ?rc))) m), ctx)"
    and slots: "preparedStatementContext ctx
        = map (lookup_binding (map_of [(''id'', JNum 5), (''name'', JStr ''ann'')])) [''id'', ''id'']"
    and lastwins: "\<forall>i<length [''id'', ''id'']. \<exists>j. i \<le> j \<and> j < length [''id'', ''id'']
          \<and> [''id'', ''id''] ! j = [''id'', ''id''] ! i
          \<and> (\<forall>l. j < l \<and> l < length [''id'', ''id''] \<longrightarrow> [''id'', ''id''] ! l \<noteq> [''id'', ''id''] ! i)
          \<and> m ([''id'', ''id''] ! i) = Some (placeholder (Suc j))"
    by blast
  have "0 < length [''id'', ''id'']" by simp
  with lastwins obtain j where j: "j < length [''id'', ''id'']"
    and later: "\<forall>l. j < l \<and> l < length [''id'', ''id''] \<longrightarrow>
                  [''id'', ''id''] ! l \<noteq> [''id'', ''id''] ! 0"
    and mj0: "m ([''id'', ''id''] ! 0) = Some (placeholder (Suc j))"
    by blast
  from mj0 have mj: "m ''id'' = Some (placeholder (Suc j))" by simp
  have "j = 1"
  proof (rule ccontr)
    assume "j \<noteq> 1"
    with j have "j = 0" by simp
    with later have "[''id'', ''id''] ! 1 \<noteq> [''id'', ''id''] ! 0"
      by (auto dest!: spec [of _ 1])
    then show False by simp
  qed
  with mj have "m ''id'' = Some ''@PARAM_2''" by (simp add: placeholder_values)
  moreover from slots have "preparedStatementContext ctx = [JNum 5, JNum 5]"
    by (simp add: lookup_binding_def)
  ultimately show "\<exists>bindingResolution ctx.
      resolveActionConfigurationProperty extractMustacheStrings_spec evaluate_globals
          renderValue_spec no_super ?rc
        = Inr (JStr (renderValue_spec ?t bindingResolution), ctx)
      \<and> preparedStatementContext ctx = [JNum 5, JNum 5]
      \<and> bindingResolution ''id'' = Some ''@PARAM_2''"
    using r by (auto simp only: example_prepared)
next
  let ?t = "''SELECT * FROM t WHERE id = {{id}} AND name = {{name}}''"
  let ?rc = "example_resolution ?t"
  have occs: "[''id'', ''name''] = extractMustacheStrings_spec (property_or_empty (body (actionConfiguration ?rc)))"
    by (simp only: example_prepared example_scan)
  have noproto: "''__proto__'' \<notin> set [''id'', ''name'']" by simp
  from resolver_occurrences [where extractMustacheStrings = extractMustacheStrings_spec
      and resolveAllBindings = evaluate_globals and renderValue = renderValue_spec
      and super = no_super and rc = ?rc,
      OF example_prepared(1) example_prepared(2) example_globals_eval occs noproto]
  obtain m ctx where
    r: "resolveActionConfigurationProperty extractMustacheStrings_spec evaluate_globals
          renderValue_spec no_super ?rc
        = Inr (JStr (renderValue_spec (property_or_empty (body (actionConfiguration ?rc))) m), ctx)"
    and slots: "preparedStatementContext ctx
        = map (lookup_binding (map_of [(''id'', JNum 5), (''name'', JStr ''ann'')])) [''id'', ''name'']"
    and dist: "distinct [''id'', ''name''] \<longrightarrow>
         (\<forall>i<length [''id'', ''name'']. m ([''id'', ''name''] ! i) = Some (placeholder (Suc i)))"
    by blast
  have d: "distinct [''id'', ''name'']" by simp
  from dist d have all: "\<forall>i<length [''id'', ''name'']. m ([''id'', ''name''] ! i) = Some (placeholder (Suc i))"
    by blast
  from all have "m ''id'' = Some ''@PARAM_1''"
    by (auto dest!: spec [of _ 0] simp: placeholder_values)
  moreover from all have "m ''name'' = Some ''@PARAM_2''"
    by (auto dest!: spec [of _ 1] simp: placeholder_values)
  moreover from slots have "preparedStatementContext ctx = [JNum 5, JStr ''ann'']"
    by (simp add: lookup_binding_def)
  ultimately show "\<exists>bindingResolution ctx.
      resolveActionConfigurationProperty extractMustacheStrings_spec evaluate_globals
          renderValue_spec no_super ?rc
        = Inr (JStr (renderValue_spec ?t bindingResolution), ctx)
      \<and> preparedStatementContext ctx = [JNum 5, JStr ''ann'']
      \<and> bindingResolution ''id'' = Some ''@PARAM_1''
      \<and> bindingResolution ''name'' = Some ''@PARAM_2''"
    using r by (auto simp only: example_prepared)
qed

text \<open>
  Claim C7.  The resolver empties \<open>preparedStatementContext\<close> before it pushes, so what
  the list held before the call (\<open>leftover\<close>) never shows in the result: the list has as
  many elements as the template has occurrences.  Running the resolver again on the
  context the first run left gives the same string and the same list, not a list twice
  as long.  The evaluator belongs to another package; it is assumed to return, and to
  read nothing of \<open>preparedStatementContext\<close>.
\<close>

theorem resolver_reset:
  assumes prepared: "truthy (usePreparedSql (actionConfiguration rc))"
    and onbody: "property rc = ''body''"
    and ev: "resolveAllBindings (property_or_empty (body (actionConfiguration rc))) (context' rc)
                 (files_or_empty (files rc)) (escapeStrings rc) = Inr bindingResolutions"
    and indep: "\<And>t c p fs es. resolveAllBindings t (c\<lparr>preparedStatementContext := p\<rparr>) fs es
                  = resolveAllBindings t c fs es"
    and occs: "occs = extractMustacheStrings (property_or_empty (body (actionConfiguration rc)))"
  shows "\<exists>resolved ctx.
           resolveActionConfigurationProperty extractMustacheStrings resolveAllBindings
               renderValue super rc = Inr (resolved, ctx)
         \<and> resolveActionConfigurationProperty extractMustacheStrings resolveAllBindings
               renderValue super (rc\<lparr>context' := ctx\<rparr>) = Inr (resolved, ctx)
         \<and> preparedStatementContext ctx = map (lookup_binding bindingResolutions) occs
         \<and> length (preparedStatementContext ctx) = length occs
         \<and> (\<forall>leftover.
               resolveActionConfigurationProperty extractMustacheStrings resolveAllBindings
                 renderValue super
                 (rc\<lparr>context' := (context' rc)\<lparr>preparedStatementContext := leftover\<rparr>\<rparr>)
               = Inr (resolved, ctx))"
proof -
  let ?tpl = "property_or_empty (body (actionConfiguration rc))"
  let ?ctx = "(context' rc)\<lparr>preparedStatementContext := map (lookup_binding bindingResolutions) occs\<rparr>"
  have any: "\<exists>m. \<forall>p. resolveActionConfigurationProperty extractMustacheStrings resolveAllBindings
                 renderValue super (rc\<lparr>context' := (context' rc)\<lparr>preparedStatementContext := p\<rparr>\<rparr>)
               = Inr (JStr (renderValue ?tpl m), ?ctx)"
  proof -
    obtain m c n where run: "bind_loop bindingResolutions occs
        (Map.empty, (context' rc)\<lparr>preparedStatementContext := []\<rparr>, 1) = (m, c, n)"
      by (cases "bind_loop bindingResolutions occs
        (Map.empty, (context' rc)\<lparr>preparedStatementContext := []\<rparr>, 1)") blast
    from bind_loop_context [OF run] have c: "c = ?ctx" by simp
    have "\<forall>p. resolveActionConfigurationProperty extractMustacheStrings resolveAllBindings
                 renderValue super (rc\<lparr>context' := (context' rc)\<lparr>preparedStatementContext := p\<rparr>\<rparr>)
               = Inr (JStr (renderValue ?tpl m), ?ctx)"
      using prepared onbody ev indep run c occs
      by (simp add: resolveActionConfigurationProperty_def resolvePrepared_def Let_def)
    then show ?thesis by blast
  qed
  then obtain m where all: "\<And>p. resolveActionConfigurationProperty extractMustacheStrings
        resolveAllBindings renderValue super
        (rc\<lparr>context' := (context' rc)\<lparr>preparedStatementContext := p\<rparr>\<rparr>)
      = Inr (JStr (renderValue ?tpl m), ?ctx)"
    by blast
  have same: "rc\<lparr>context' := (context' rc)\<lparr>preparedStatementContext :=
                 preparedStatementContext (context' rc)\<rparr>\<rparr> = rc"
    by simp
  have first: "resolveActionConfigurationProperty extractMustacheStrings resolveAllBindings
        renderValue super rc = Inr (JStr (renderValue ?tpl m), ?ctx)"
    using all [of "preparedStatementContext (context' rc)"] by (simp only: same)
  have second: "resolveActionConfigurationProperty extractMustacheStrings resolveAllBindings
        renderValue super (rc\<lparr>context' := ?ctx\<rparr>) = Inr (JStr (renderValue ?tpl m), ?ctx)"
    using all [of "map (lookup_binding bindingResolutions) occs"] by simp
  have "preparedStatementContext ?ctx = map (lookup_binding bindingResolutions) occs" by simp
  moreover have "length (preparedStatementContext ?ctx) = length occs" by simp
  ultimately show ?thesis using first second all by blast
qed

text \<open>Claim C7, witness.  Two runs in a row on the example of the spec.\<close>

theorem resolver_reset_witness:
  "\<exists>resolved ctx.
     resolveActionConfigurationProperty extractMustacheStrings_spec evaluate_globals
        renderValue_spec no_super
        (example_resolution ''SELECT * FROM t WHERE id = {{id}} AND name = {{name}}'')
       = Inr (resolved, ctx)
     \<and> resolveActionConfigurationProperty extractMustacheStrings_spec evaluate_globals
        renderValue_spec no_super
        ((example_resolution ''SELECT * FROM t WHERE id = {{id}} AND name = {{name}}'')
           \<lparr>context' := ctx\<rparr>)
       = Inr (resolved, ctx)
     \<and> preparedStatementContext ctx = [JNum 5, JStr ''ann'']"
proof -
  let ?t = "''SELECT * FROM t WHERE id = {{id}} AND name = {{name}}''"
  let ?rc = "example_resolution ?t"
  have occs: "[''id'', ''name''] = extractMustacheStrings_spec (property_or_empty (body (actionConfiguration ?rc)))"
    by (simp only: example_prepared example_scan)
  have indep: "\<And>t c p fs es. evaluate_globals t (c\<lparr>preparedStatementContext := p\<rparr>) fs es
                  = evaluate_globals t c fs es"
    by (simp add: evaluate_globals_def)
  from resolver_reset [where extractMustacheStrings = extractMustacheStrings_spec
      and resolveAllBindings = evaluate_globals and renderValue = renderValue_spec
      and super = no_super and rc = ?rc,
      OF example_prepared(1) example_prepared(2) example_globals_eval indep occs]
  obtain resolved ctx where
    "resolveActionConfigurationProperty extractMustacheStrings_spec evaluate_globals
        renderValue_spec no_super ?rc = Inr (resolved, ctx)"
    "resolveActionConfigurationProperty extractMustacheStrings_spec evaluate_globals
        renderValue_spec no_super (?rc\<lparr>context' := ctx\<rparr>) = Inr (resolved, ctx)"
    "preparedStatementContext ctx
        = map (lookup_binding (map_of [(''id'', JNum 5), (''name'', JStr ''ann'')])) [''id'', ''name'']"
    by blast
  then show ?thesis by (auto simp: lookup_binding_def)
qed

text \<open>
  Claim C9.  The prepared path runs exactly when \<open>usePreparedSql\<close> is truthy and the
  property is \<open>body\<close>; in every other case the call is handed, with the same argument, to
  the resolver of the base class and its result is returned as it is.
\<close>

theorem resolver_dispatch:
  "(truthy (usePreparedSql (actionConfiguration rc)) \<and> property rc = ''body'' \<longrightarrow>
      resolveActionConfigurationProperty extractMustacheStrings resolveAllBindings renderValue super rc
        = resolvePrepared extractMustacheStrings resolveAllBindings renderValue rc)
   \<and> (\<not> (truthy (usePreparedSql (actionConfiguration rc)) \<and> property rc = ''body'') \<longrightarrow>
      resolveActionConfigurationProperty extractMustacheStrings resolveAllBindings renderValue super rc
        = super rc)"
  by (simp add: resolveActionConfigurationProperty_def)

text \<open>Claim C9, witness.  The prepared path, another property, and an action without
  \<open>usePreparedSql\<close>.\<close>

theorem resolver_dispatch_witness:
  "resolveActionConfigurationProperty extractMustacheStrings_spec evaluate_globals
      renderValue_spec no_super (example_resolution ''SELECT {{id}}'')
    = resolvePrepared extractMustacheStrings_spec evaluate_globals renderValue_spec
        (example_resolution ''SELECT {{id}}'')
   \<and> resolveActionConfigurationProperty extractMustacheStrings_spec evaluate_globals
      renderValue_spec no_super ((example_resolution ''SELECT {{id}}'')\<lparr>property := ''path''\<rparr>)
    = no_super ((example_resolution ''SELECT {{id}}'')\<lparr>property := ''path''\<rparr>)
   \<and> resolveActionConfigurationProperty extractMustacheStrings_spec evaluate_globals
      renderValue_spec no_super
        ((example_resolution ''SELECT {{id}}'')
           \<lparr>actionConfiguration := \<lparr>body = Some ''SELECT {{id}}'', usePreparedSql = None\<rparr>\<rparr>)
    = no_super ((example_resolution ''SELECT {{id}}'')
           \<lparr>actionConfiguration := \<lparr>body = Some ''SELECT {{id}}'', usePreparedSql = None\<rparr>\<rparr>)"
  using resolver_dispatch [of "example_resolution ''SELECT {{id}}''" extractMustacheStrings_spec
      evaluate_globals renderValue_spec no_super]
    resolver_dispatch [of "(example_resolution ''SELECT {{id}}'')\<lparr>property := ''path''\<rparr>"
      extractMustacheStrings_spec evaluate_globals renderValue_spec no_super]
    resolver_dispatch [of "(example_resolution ''SELECT {{id}}'')
           \<lparr>actionConfiguration := \<lparr>body = Some ''SELECT {{id}}'', usePreparedSql = None\<rparr>\<rparr>"
      extractMustacheStrings_spec evaluate_globals renderValue_spec no_super]
  by (simp add: example_resolution_def)

section \<open>Properties of the connection and the executor\<close>

lemma createConnection_example:
  "createConnection (example_driver rs) example_config connectionTimeoutMillis_default
     = (Inr (ConnectionPool (example_sqlConfig (Some ''db.example''))),
        [Connect (example_sqlConfig (Some ''db.example''))])"
  "createConnection_unpooled (example_driver rs) example_config connectionTimeoutMillis_default
     = (Inr (ConnectionPool (example_sqlConfig (Some ''db.example''))),
        [Connect (example_sqlConfig (Some ''db.example''))])"
  by (simp_all add: createConnection_def createConnection_unpooled_def example_driver_def
      example_config_def example_sqlConfig_def connectionTimeoutMillis_default_def
      databaseName_value_def property_or_empty_def useSsl_of_def Let_def)

text \<open>
  Claim C4.  Both variants of \<open>createConnection\<close> check, in this order, that the endpoint
  is there, that the authentication block is there, and that
  \<open>auth.custom?.databaseName?.value\<close> is a non-empty string.  The first check that fails
  decides the error: one message per missing field, each naming the field and the plugin,
  and the list of events is empty, so nothing has been sent to the driver.  Only when all
  three hold is a connection attempted.
\<close>

theorem createConnection_validation:
  "(endpoint cfg = None \<longrightarrow>
      createConnection d cfg t
        = (Inl (IntegrationError ''Endpoint not specified for Microsoft SQL step''), [])
    \<and> createConnection_unpooled d cfg t
        = (Inl (IntegrationError ''Endpoint not specified for Microsoft SQL step''), []))
   \<and> (endpoint cfg \<noteq> None \<and> authentication cfg = None \<longrightarrow>
      createConnection d cfg t
        = (Inl (IntegrationError ''Authentication not specified for Microsoft SQL step''), [])
    \<and> createConnection_unpooled d cfg t
        = (Inl (IntegrationError ''Authentication not specified for Microsoft SQL step''), []))
   \<and> (endpoint cfg \<noteq> None
        \<and> (\<exists>auth. authentication cfg = Some auth \<and> falsy_string (databaseName_value auth)) \<longrightarrow>
      createConnection d cfg t
        = (Inl (IntegrationError ''Database not specified for Microsoft SQL step''), [])
    \<and> createConnection_unpooled d cfg t
        = (Inl (IntegrationError ''Database not specified for Microsoft SQL step''), []))
   \<and> (endpoint cfg \<noteq> None
        \<and> (\<exists>auth. authentication cfg = Some auth \<and> \<not> falsy_string (databaseName_value auth)) \<longrightarrow>
      (\<exists>sqlConfig. snd (createConnection d cfg t) = [Connect sqlConfig])
    \<and> (\<exists>sqlConfig. snd (createConnection_unpooled d cfg t) = [Connect sqlConfig]))"
  by (auto simp: createConnection_def createConnection_unpooled_def pluginName_def Let_def
      split: option.splits)

text \<open>Claim C4, witness.  One configuration per missing field, one missing two fields, and
  a complete one.\<close>

theorem createConnection_validation_witness:
  "createConnection (example_driver ()) (example_config\<lparr>endpoint := None\<rparr>) 30000
     = (Inl (IntegrationError ''Endpoint not specified for Microsoft SQL step''), [])
   \<and> createConnection (example_driver ()) (example_config\<lparr>authentication := None\<rparr>) 30000
     = (Inl (IntegrationError ''Authentication not specified for Microsoft SQL step''), [])
   \<and> createConnection (example_driver ())
       (example_config\<lparr>authentication :=
          Some \<lparr>username = Some ''sa'', password = Some ''secret'', custom = None\<rparr>\<rparr>) 30000
     = (Inl (IntegrationError ''Database not specified for Microsoft SQL step''), [])
   \<and> createConnection (example_driver ()) (example_config\<lparr>endpoint := None, authentication := None\<rparr>) 30000
     = (Inl (IntegrationError ''Endpoint not specified for Microsoft SQL step''), [])
   \<and> (\<exists>sqlConfig. snd (createConnection (example_driver ()) example_config 30000) = [Connect sqlConfig])"
proof -
  let ?d = "example_driver ()"
  let ?noauth = "\<lparr>username = Some ''sa'', password = Some ''secret'', custom = None\<rparr>"
  have a: "endpoint (example_config\<lparr>endpoint := None\<rparr>) = None" by simp
  have b: "endpoint (example_config\<lparr>authentication := None\<rparr>) \<noteq> None
           \<and> authentication (example_config\<lparr>authentication := None\<rparr>) = None"
    by (simp add: example_config_def)
  have c: "endpoint (example_config\<lparr>authentication := Some ?noauth\<rparr>) \<noteq> None
           \<and> (\<exists>auth. authentication (example_config\<lparr>authentication := Some ?noauth\<rparr>) = Some auth
                 \<and> falsy_string (databaseName_value auth))"
    by (simp add: example_config_def databaseName_value_def)
  have e: "endpoint (example_config\<lparr>endpoint := None, authentication := None\<rparr>) = None" by simp
  have f: "endpoint example_config \<noteq> None
           \<and> (\<exists>auth. authentication example_config = Some auth
                 \<and> \<not> falsy_string (databaseName_value auth))"
    by (simp add: example_config_def databaseName_value_def)
  have 1: "createConnection ?d (example_config\<lparr>endpoint := None\<rparr>) 30000
     = (Inl (IntegrationError ''Endpoint not specified for Microsoft SQL step''), [])"
    using createConnection_validation [of "example_config\<lparr>endpoint := None\<rparr>" ?d 30000] a
    by (elim conjE) simp
  have 2: "createConnection ?d (example_config\<lparr>authentication := None\<rparr>) 30000
     = (Inl (IntegrationError ''Authentication not specified for Microsoft SQL step''), [])"
    using createConnection_validation [of "example_config\<lparr>authentication := None\<rparr>" ?d 30000] b
    by (elim conjE) simp
  have 3: "createConnection ?d (example_config\<lparr>authentication := Some ?noauth\<rparr>) 30000
     = (Inl (IntegrationError ''Database not specified for Microsoft SQL step''), [])"
    using createConnection_validation [of "example_config\<lparr>authentication := Some ?noauth\<rparr>" ?d 30000] c
    by (elim conjE) simp
  have 4: "createConnection ?d (example_config\<lparr>endpoint := None, authentication := None\<rparr>) 30000
     = (Inl (IntegrationError ''Endpoint not specified for Microsoft SQL step''), [])"
    using createConnection_validation [of "example_config\<lparr>endpoint := None, authentication := None\<rparr>" ?d 30000] e
    by (elim conjE) simp
  have 5: "\<exists>sqlConfig. snd (createConnection ?d example_config 30000) = [Connect sqlConfig]"
    using createConnection_validation [of example_config ?d 30000] f
    by (elim conjE) simp
  from 1 2 3 4 5 show ?thesis by (intro conjI)
qed

lemma input_loop_eq:
  "input_loop ps n = map (\<lambda>i. (param_name (n + i), ps ! i)) [0..<length ps]"
proof (induction ps arbitrary: n)
  case Nil
  then show ?case by simp
next
  case (Cons p ps)
  have "[0..<length (p # ps)] = 0 # map Suc [0..<length ps]"
    by (simp add: upt_conv_Cons map_Suc_upt del: upt_Suc)
  then show ?case using Cons.IH [of "n + 1"] by (simp add: comp_def)
qed

lemma destroyConnection_events [simp]: "snd (destroyConnection d conn) = [Close]"
  by (simp add: destroyConnection_def split: option.splits)

lemma not_awaited_simp [simp]: "not_awaited p = (Inr (), snd p)"
  by (simp add: not_awaited_def)

lemma swallow_events [simp]: "snd (swallow p) = snd p"
  by (cases p) (auto simp: swallow_def split: sum.splits)

lemma try_finally_normal [simp]: "try_finally t (Inr u, evs) = (fst t, snd t @ evs)"
  by (simp add: try_finally_def)

text \<open>
  Claim C3, as stated, fails twice.  A body of two blanks is not empty for \<open>isEmpty\<close>:
  it is sent to the database as a query.  And \<open>execute\<close> of the plugin that does not
  pool connects before it looks at the body, so even the empty body costs a connection.
\<close>

theorem empty_body_counterexample:
  "executePooled (example_driver [''row'']) length example_context
      \<lparr>body = Some ''  '', usePreparedSql = None\<rparr> (ConnectionPool (example_sqlConfig None))
     = (Inr (ExecutionOutput (Some 1)), [NewRequest, Query ''  ''])
   \<and> execute (example_driver [''row'']) length example_context example_config
      \<lparr>body = Some [], usePreparedSql = None\<rparr>
     = (Inr (ExecutionOutput None), [Connect (example_sqlConfig (Some ''db.example'')), Close])"
proof -
  have "executePooled (example_driver [''row'']) length example_context
      \<lparr>body = Some ''  '', usePreparedSql = None\<rparr> (ConnectionPool (example_sqlConfig None))
     = (Inr (ExecutionOutput (Some 1)), [NewRequest, Query ''  ''])"
    by (simp add: executePooled_def executeQuery_def request_query_def
        example_driver_def example_context_def property_or_empty_def)
  moreover have "execute (example_driver [''row'']) length example_context example_config
      \<lparr>body = Some [], usePreparedSql = None\<rparr>
     = (Inr (ExecutionOutput None), [Connect (example_sqlConfig (Some ''db.example'')), Close])"
    unfolding execute_def createConnection_example
    by simp
  ultimately show ?thesis by blast
qed

text \<open>
  Claim C3, amended.  For a body that is absent or of length 0, \<open>executePooled\<close>
  returns the empty output and does nothing with the connection it was given; \<open>execute\<close>
  of the plugin that does not pool returns the empty output too, having made its
  connection and closed it, with no request and no query in between.
\<close>

theorem empty_body_short_circuit:
  assumes "isEmpty (body action)"
  shows "executePooled d normalizeTableColumnNames ctx action conn = (Inr (ExecutionOutput None), [])
    \<and> (\<forall>conn' evs.
          createConnection_unpooled d cfg connectionTimeoutMillis_default = (Inr conn', evs) \<longrightarrow>
          execute d normalizeTableColumnNames ctx cfg action
            = (Inr (ExecutionOutput None), evs @ [Close])
          \<and> (\<exists>sqlConfig. evs = [Connect sqlConfig]))"
proof -
  have noacq: "\<And>conn' evs. createConnection_unpooled d cfg connectionTimeoutMillis_default
      = (Inr conn', evs) \<Longrightarrow> \<exists>sqlConfig. evs = [Connect sqlConfig]"
    by (auto simp: createConnection_unpooled_def Let_def split: option.splits if_splits)
  have pooled: "executePooled d normalizeTableColumnNames ctx action conn
      = (Inr (ExecutionOutput None), [])"
    using assms by (simp add: executePooled_def Let_def)
  have unpooled: "\<And>conn' evs. createConnection_unpooled d cfg connectionTimeoutMillis_default
      = (Inr conn', evs) \<Longrightarrow>
      execute d normalizeTableColumnNames ctx cfg action = (Inr (ExecutionOutput None), evs @ [Close])"
    using assms by (simp add: execute_def Let_def)
  from pooled unpooled noacq show ?thesis by blast
qed

text \<open>Claim C3, witness.  The empty string as body, on both plugins.\<close>

theorem empty_body_short_circuit_witness:
  "isEmpty (body \<lparr>body = Some [], usePreparedSql = None\<rparr>)
   \<and> executePooled (example_driver [''row'']) length example_context
      \<lparr>body = Some [], usePreparedSql = None\<rparr> (ConnectionPool (example_sqlConfig None))
     = (Inr (ExecutionOutput None), [])
   \<and> execute (example_driver [''row'']) length example_context example_config
      \<lparr>body = Some [], usePreparedSql = None\<rparr>
     = (Inr (ExecutionOutput None), [Connect (example_sqlConfig (Some ''db.example'')), Close])"
proof -
  have h: "isEmpty (body \<lparr>body = Some [], usePreparedSql = None\<rparr>)" by simp
  from empty_body_short_circuit [OF h, of "example_driver [''row'']" length example_context
      "ConnectionPool (example_sqlConfig None)" example_config]
    createConnection_example(2) [of "[''row'']"] h
  show ?thesis by auto
qed

text \<open>
  Claim C5.  When the body is not empty, the executor makes one request, binds the
  \<open>i\<close>-th value of \<open>preparedStatementContext\<close> under the name \<open>PARAM_i\<close> for
  \<open>i = 1..N\<close>, in order, and only then sends the text, once; the answer is the driver's
  answer to that text with exactly these bindings.  The name bound for position \<open>i\<close> is
  the resolver's placeholder for it without the leading \<open>@\<close>.  (Positions are counted
  from 0 in the statement.)
\<close>

theorem parameters_bound_in_order:
  assumes nonempty: "\<not> isEmpty (body action)"
    and q: "body action = Some q"
    and params: "preparedStatementContext ctx = params"
  shows "snd (executePooled d normalizeTableColumnNames ctx action conn)
           = NewRequest
             # map (\<lambda>i. Input (param_name (Suc i)) (params ! i)) [0..<length params]
             @ [Query q]
       \<and> fst (executePooled d normalizeTableColumnNames ctx action conn)
           = (case query d q (map (\<lambda>i. (param_name (Suc i), params ! i)) [0..<length params]) of
                Inl msg \<Rightarrow> Inl (IntegrationError (''Microsoft SQL query failed, '' @ msg))
              | Inr rs \<Rightarrow> Inr (ExecutionOutput (Some (normalizeTableColumnNames rs))))
       \<and> (\<forall>conn' evs.
            createConnection_unpooled d cfg connectionTimeoutMillis_default = (Inr conn', evs) \<longrightarrow>
            snd (execute d normalizeTableColumnNames ctx cfg action)
              = evs @ NewRequest
                # map (\<lambda>i. Input (param_name (Suc i)) (params ! i)) [0..<length params]
                @ [Query q, Close])
       \<and> (\<forall>i. placeholder (Suc i) = CHR ''@'' # param_name (Suc i))"
proof -
  let ?inputs = "map (\<lambda>i. (param_name (Suc i), params ! i)) [0..<length params]"
  have loop: "input_loop (preparedStatementContext ctx) (Suc 0) = ?inputs"
    using params by (simp add: input_loop_eq)
  have events: "map (\<lambda>(n, v). Input n v) ?inputs
      = map (\<lambda>i. Input (param_name (Suc i)) (params ! i)) [0..<length params]"
    by simp
  have falsy: "\<not> falsy_string (body action)"
    using nonempty q by simp
  have rq: "request_query d ?inputs q
      = (case query d q ?inputs of Inl msg \<Rightarrow> Inl (ForeignError msg) | Inr rs \<Rightarrow> Inr rs,
         NewRequest # map (\<lambda>i. Input (param_name (Suc i)) (params ! i)) [0..<length params]
           @ [Query q])"
    unfolding request_query_def events by simp
  have pooled_events: "snd (executePooled d normalizeTableColumnNames ctx action conn)
           = NewRequest
             # map (\<lambda>i. Input (param_name (Suc i)) (params ! i)) [0..<length params]
             @ [Query q]"
    using nonempty falsy q
    by (simp add: executePooled_def Let_def executeQuery_def loop rq property_or_empty_def
        split: sum.splits)
  have pooled_result: "fst (executePooled d normalizeTableColumnNames ctx action conn)
           = (case query d q ?inputs of
                Inl msg \<Rightarrow> Inl (IntegrationError (''Microsoft SQL query failed, '' @ msg))
              | Inr rs \<Rightarrow> Inr (ExecutionOutput (Some (normalizeTableColumnNames rs))))"
    using nonempty falsy q
    by (simp add: executePooled_def Let_def executeQuery_def loop rq property_or_empty_def
        pluginName_def split: sum.splits)
  have unpooled: "\<And>conn' evs.
      createConnection_unpooled d cfg connectionTimeoutMillis_default = (Inr conn', evs) \<Longrightarrow>
      snd (execute d normalizeTableColumnNames ctx cfg action)
        = evs @ NewRequest
          # map (\<lambda>i. Input (param_name (Suc i)) (params ! i)) [0..<length params]
          @ [Query q, Close]"
    using nonempty q
    by (simp add: execute_def Let_def loop rq property_or_empty_def split: sum.splits)
  have names: "\<forall>i. placeholder (Suc i) = CHR ''@'' # param_name (Suc i)"
    by (simp add: placeholder_def param_name_def)
  from pooled_events pooled_result unpooled names show ?thesis by blast
qed

lemma param_name_values:
  "param_name (Suc 0) = ''PARAM_1''" "param_name (Suc (Suc 0)) = ''PARAM_2''"
  by (simp_all add: param_name_def number_toString.simps digit_char_def)

text \<open>Claim C5, witness.  Two parameters, on both plugins.\<close>

theorem parameters_bound_in_order_witness:
  "\<not> isEmpty (body \<lparr>body = Some ''SELECT @PARAM_1, @PARAM_2'', usePreparedSql = Some True\<rparr>)
   \<and> snd (executePooled (example_driver [''row'']) length
           (example_context\<lparr>preparedStatementContext := [JNum 5, JStr ''ann'']\<rparr>)
           \<lparr>body = Some ''SELECT @PARAM_1, @PARAM_2'', usePreparedSql = Some True\<rparr>
           (ConnectionPool (example_sqlConfig None)))
       = [NewRequest, Input ''PARAM_1'' (JNum 5), Input ''PARAM_2'' (JStr ''ann''),
          Query ''SELECT @PARAM_1, @PARAM_2'']
   \<and> snd (execute (example_driver [''row'']) length
           (example_context\<lparr>preparedStatementContext := [JNum 5, JStr ''ann'']\<rparr>)
           example_config
           \<lparr>body = Some ''SELECT @PARAM_1, @PARAM_2'', usePreparedSql = Some True\<rparr>)
       = [Connect (example_sqlConfig (Some ''db.example'')),
          NewRequest, Input ''PARAM_1'' (JNum 5), Input ''PARAM_2'' (JStr ''ann''),
          Query ''SELECT @PARAM_1, @PARAM_2'', Close]"
proof -
  let ?a = "\<lparr>body = Some ''SELECT @PARAM_1, @PARAM_2'', usePreparedSql = Some True\<rparr>"
  let ?c = "example_context\<lparr>preparedStatementContext := [JNum 5, JStr ''ann'']\<rparr>"
  have h1: "\<not> isEmpty (body ?a)" by simp
  have h2: "body ?a = Some ''SELECT @PARAM_1, @PARAM_2''" by simp
  have h3: "preparedStatementContext ?c = [JNum 5, JStr ''ann'']" by simp
  have upt2: "[0..<length [JNum 5, JStr ''ann'']] = [0, Suc 0]"
    by (simp add: upt_conv_Cons)
  note main = parameters_bound_in_order [OF h1 h2 h3, of "example_driver [''row'']" length
      "ConnectionPool (example_sqlConfig None)" example_config]
  from main have "snd (executePooled (example_driver [''row'']) length ?c ?a
           (ConnectionPool (example_sqlConfig None)))
       = [NewRequest, Input ''PARAM_1'' (JNum 5), Input ''PARAM_2'' (JStr ''ann''),
          Query ''SELECT @PARAM_1, @PARAM_2'']"
    by (elim conjE) (simp only: upt2 list.map param_name_values nth_Cons_0 nth_Cons_Suc append.simps)
  moreover from main createConnection_example(2) [of "[''row'']"]
  have "snd (execute (example_driver [''row'']) length ?c example_config ?a)
       = [Connect (example_sqlConfig (Some ''db.example'')),
          NewRequest, Input ''PARAM_1'' (JNum 5), Input ''PARAM_2'' (JStr ''ann''),
          Query ''SELECT @PARAM_1, @PARAM_2'', Close]"
    by (elim conjE) (simp only: upt2 list.map param_name_values nth_Cons_0 nth_Cons_Suc append.simps)
  ultimately show ?thesis using h1 by blast
qed

lemma createConnection_close [simp]:
  "createConnection (d\<lparr>close := c\<rparr>) cfg t = createConnection d cfg t"
  "createConnection_unpooled (d\<lparr>close := c\<rparr>) cfg t = createConnection_unpooled d cfg t"
  by (simp_all add: createConnection_def createConnection_unpooled_def Let_def
      split: option.splits)

lemma query_close [simp]:
  "plain_query (d\<lparr>close := c\<rparr>) q = plain_query d q"
  "request_query (d\<lparr>close := c\<rparr>) inputs q = request_query d inputs q"
  by (simp_all add: plain_query_def request_query_def)

lemma createConnection_events:
  "createConnection d cfg t = (Inr conn, evs) \<Longrightarrow> \<exists>sqlConfig. evs = [Connect sqlConfig]"
  "createConnection_unpooled d cfg t = (Inr conn, evs) \<Longrightarrow> \<exists>sqlConfig. evs = [Connect sqlConfig]"
  by (auto simp: createConnection_def createConnection_unpooled_def Let_def
      split: option.splits if_splits)

lemma plain_query_events [simp]: "snd (plain_query d q) = [Query q]"
  by (simp add: plain_query_def)

lemma request_query_events:
  "snd (request_query d inputs q) = NewRequest # map (\<lambda>(n, v). Input n v) inputs @ [Query q]"
  by (simp add: request_query_def)

lemma request_query_no_close: "Close \<notin> set (snd (request_query d inputs q))"
  by (auto simp: request_query_events)

lemma metadata_released:
  assumes "createConnection d cfg connectionTimeoutMillis_default = (Inr conn, evs)"
  shows "\<exists>r evs'. metadata d cfg = (r, evs @ evs' @ [Close]) \<and> Close \<notin> set (evs @ evs')
           \<and> (\<forall>c. metadata (d\<lparr>close := c\<rparr>) cfg = (r, evs @ evs' @ [Close]))"
proof -
  from createConnection_events(1) [OF assms] have nc: "Close \<notin> set evs" by auto
  obtain res qe where pq: "plain_query d catalog_query = (res, qe)"
    by (cases "plain_query d catalog_query") blast
  then have qe: "qe = [Query catalog_query]"
    using plain_query_events [of d catalog_query] by simp
  have "\<exists>r. \<forall>c. metadata (d\<lparr>close := c\<rparr>) cfg = (r, evs @ qe @ [Close])"
    using assms pq
    by (cases res; cases "build_schema (projr res)")
       (auto simp: metadata_def executeQuery_def split: sum.splits)
  then obtain r where all: "\<And>c. metadata (d\<lparr>close := c\<rparr>) cfg = (r, evs @ qe @ [Close])"
    by blast
  have "d\<lparr>close := close d\<rparr> = d" by simp
  with all [of "close d"] have "metadata d cfg = (r, evs @ qe @ [Close])" by simp
  with all nc qe show ?thesis by auto
qed

lemma metadata_unpooled_released:
  assumes "createConnection_unpooled d cfg connectionTimeoutMillis_default = (Inr conn, evs)"
  shows "\<exists>r evs'. metadata_unpooled d cfg = (r, evs @ evs' @ [Close]) \<and> Close \<notin> set (evs @ evs')
           \<and> (\<forall>c. metadata_unpooled (d\<lparr>close := c\<rparr>) cfg = (r, evs @ evs' @ [Close]))"
proof -
  from createConnection_events(2) [OF assms] have nc: "Close \<notin> set evs" by auto
  obtain res qe where pq: "plain_query d catalog_query = (res, qe)"
    by (cases "plain_query d catalog_query") blast
  then have qe: "qe = [Query catalog_query]"
    using plain_query_events [of d catalog_query] by simp
  have "\<exists>r. \<forall>c. metadata_unpooled (d\<lparr>close := c\<rparr>) cfg = (r, evs @ qe @ [Close])"
    using assms pq
    by (cases res; cases "build_schema (projr res)")
       (auto simp: metadata_unpooled_def split: sum.splits)
  then obtain r where all: "\<And>c. metadata_unpooled (d\<lparr>close := c\<rparr>) cfg = (r, evs @ qe @ [Close])"
    by blast
  have "d\<lparr>close := close d\<rparr> = d" by simp
  with all [of "close d"] have "metadata_unpooled d cfg = (r, evs @ qe @ [Close])" by simp
  with all nc qe show ?thesis by auto
qed

lemma test_released:
  assumes "createConnection d cfg connectionTimeoutMillis_default = (Inr conn, evs)"
  shows "\<exists>r evs'. test d cfg = (r, evs @ evs' @ [Close]) \<and> Close \<notin> set (evs @ evs')
           \<and> (\<forall>c. test (d\<lparr>close := c\<rparr>) cfg = (r, evs @ evs' @ [Close]))"
proof -
  from createConnection_events(1) [OF assms] have nc: "Close \<notin> set evs" by auto
  obtain res qe where pq: "plain_query d probe_query = (res, qe)"
    by (cases "plain_query d probe_query") blast
  then have qe: "qe = [Query probe_query]"
    using plain_query_events [of d probe_query] by simp
  have "\<exists>r. \<forall>c. test (d\<lparr>close := c\<rparr>) cfg = (r, evs @ qe @ [Close])"
    using assms pq
    by (cases res) (auto simp: test_def executeQuery_def)
  then obtain r where all: "\<And>c. test (d\<lparr>close := c\<rparr>) cfg = (r, evs @ qe @ [Close])"
    by blast
  have "d\<lparr>close := close d\<rparr> = d" by simp
  with all [of "close d"] have "test d cfg = (r, evs @ qe @ [Close])" by simp
  with all nc qe show ?thesis by auto
qed

lemma test_unpooled_released:
  assumes "createConnection_unpooled d cfg connectionTimeoutMillis_default = (Inr conn, evs)"
  shows "\<exists>r evs'. test_unpooled d cfg = (r, evs @ evs' @ [Close]) \<and> Close \<notin> set (evs @ evs')
           \<and> (\<forall>c. test_unpooled (d\<lparr>close := c\<rparr>) cfg = (r, evs @ evs' @ [Close]))"
proof -
  from createConnection_events(2) [OF assms] have nc: "Close \<notin> set evs" by auto
  obtain res qe where pq: "plain_query d probe_query = (res, qe)"
    by (cases "plain_query d probe_query") blast
  then have qe: "qe = [Query probe_query]"
    using plain_query_events [of d probe_query] by simp
  have "\<exists>r. \<forall>c. test_unpooled (d\<lparr>close := c\<rparr>) cfg = (r, evs @ qe @ [Close])"
    using assms pq
    by (cases res) (auto simp: test_unpooled_def)
  then obtain r where all: "\<And>c. test_unpooled (d\<lparr>close := c\<rparr>) cfg = (r, evs @ qe @ [Close])"
    by blast
  have "d\<lparr>close := close d\<rparr> = d" by simp
  with all [of "close d"] have "test_unpooled d cfg = (r, evs @ qe @ [Close])" by simp
  with all nc qe show ?thesis by auto
qed

lemma execute_released:
  assumes "createConnection_unpooled d cfg connectionTimeoutMillis_default = (Inr conn, evs)"
  shows "\<exists>r evs'. execute d norm ctx cfg action = (r, evs @ evs' @ [Close])
           \<and> Close \<notin> set (evs @ evs')
           \<and> (\<forall>c. execute (d\<lparr>close := c\<rparr>) norm ctx cfg action = (r, evs @ evs' @ [Close]))"
proof -
  from createConnection_events(2) [OF assms] have nc: "Close \<notin> set evs" by auto
  let ?inputs = "input_loop (preparedStatementContext ctx) 1"
  let ?q = "property_or_empty (body action)"
  obtain res qe where rq: "request_query d ?inputs ?q = (res, qe)"
    by (cases "request_query d ?inputs ?q") blast
  then have qe: "Close \<notin> set qe"
    using request_query_no_close [of d ?inputs ?q] by simp
  let ?evs' = "if isEmpty (body action) then [] else qe"
  have "\<exists>r. \<forall>c. execute (d\<lparr>close := c\<rparr>) norm ctx cfg action = (r, evs @ ?evs' @ [Close])"
    using assms rq
    by (cases res) (auto simp: execute_def Let_def)
  then obtain r where all: "\<And>c. execute (d\<lparr>close := c\<rparr>) norm ctx cfg action
      = (r, evs @ ?evs' @ [Close])"
    by blast
  have "d\<lparr>close := close d\<rparr> = d" by simp
  with all [of "close d"] have "execute d norm ctx cfg action = (r, evs @ ?evs' @ [Close])"
    by simp
  moreover have "Close \<notin> set (evs @ ?evs')" using nc qe by simp
  ultimately show ?thesis using all by blast
qed

text \<open>
  Claim C8.  Whenever one of the operations has made its connection, its run ends with
  the call that closes it, made once, after everything else and on the failing paths as
  on the succeeding ones; and neither the outcome nor the events depend on whether that
  close succeeds (\<open>c\<close> ranges over all the ways it can settle).  The operations are
  \<open>metadata\<close> and \<open>test\<close> of both plugins and \<open>execute\<close> of the plugin that does not
  pool (the pooled \<open>executePooled\<close> is handed its connection and does not release it).
\<close>

theorem connection_released:
  "(\<forall>conn evs. createConnection dm cfg connectionTimeoutMillis_default = (Inr conn, evs) \<longrightarrow>
      (\<exists>r evs'. metadata dm cfg = (r, evs @ evs' @ [Close]) \<and> Close \<notin> set (evs @ evs')
           \<and> (\<forall>c. metadata (dm\<lparr>close := c\<rparr>) cfg = (r, evs @ evs' @ [Close]))))
   \<and> (\<forall>conn evs. createConnection d cfg connectionTimeoutMillis_default = (Inr conn, evs) \<longrightarrow>
      (\<exists>r evs'. test d cfg = (r, evs @ evs' @ [Close]) \<and> Close \<notin> set (evs @ evs')
           \<and> (\<forall>c. test (d\<lparr>close := c\<rparr>) cfg = (r, evs @ evs' @ [Close]))))
   \<and> (\<forall>conn evs. createConnection_unpooled d cfg connectionTimeoutMillis_default = (Inr conn, evs) \<longrightarrow>
      (\<exists>r evs'. execute d normalizeTableColumnNames ctx cfg action = (r, evs @ evs' @ [Close])
           \<and> Close \<notin> set (evs @ evs')
           \<and> (\<forall>c. execute (d\<lparr>close := c\<rparr>) normalizeTableColumnNames ctx cfg action
                  = (r, evs @ evs' @ [Close]))))
   \<and> (\<forall>conn evs. createConnection_unpooled dm cfg connectionTimeoutMillis_default = (Inr conn, evs) \<longrightarrow>
      (\<exists>r evs'. metadata_unpooled dm cfg = (r, evs @ evs' @ [Close]) \<and> Close \<notin> set (evs @ evs')
           \<and> (\<forall>c. metadata_unpooled (dm\<lparr>close := c\<rparr>) cfg = (r, evs @ evs' @ [Close]))))
   \<and> (\<forall>conn evs. createConnection_unpooled d cfg connectionTimeoutMillis_default = (Inr conn, evs) \<longrightarrow>
      (\<exists>r evs'. test_unpooled d cfg = (r, evs @ evs' @ [Close]) \<and> Close \<notin> set (evs @ evs')
           \<and> (\<forall>c. test_unpooled (d\<lparr>close := c\<rparr>) cfg = (r, evs @ evs' @ [Close]))))"
proof (intro conjI allI impI)
  fix conn evs
  assume "createConnection dm cfg connectionTimeoutMillis_default = (Inr conn, evs)"
  then show "\<exists>r evs'. metadata dm cfg = (r, evs @ evs' @ [Close]) \<and> Close \<notin> set (evs @ evs')
           \<and> (\<forall>c. metadata (dm\<lparr>close := c\<rparr>) cfg = (r, evs @ evs' @ [Close]))"
    by (rule metadata_released)
next
  fix conn evs
  assume "createConnection d cfg connectionTimeoutMillis_default = (Inr conn, evs)"
  then show "\<exists>r evs'. test d cfg = (r, evs @ evs' @ [Close]) \<and> Close \<notin> set (evs @ evs')
           \<and> (\<forall>c. test (d\<lparr>close := c\<rparr>) cfg = (r, evs @ evs' @ [Close]))"
    by (rule test_released)
next
  fix conn evs
  assume "createConnection_unpooled d cfg connectionTimeoutMillis_default = (Inr conn, evs)"
  then show "\<exists>r evs'. execute d normalizeTableColumnNames ctx cfg action = (r, evs @ evs' @ [Close])
           \<and> Close \<notin> set (evs @ evs')
           \<and> (\<forall>c. execute (d\<lparr>close := c\<rparr>) normalizeTableColumnNames ctx cfg action
                  = (r, evs @ evs' @ [Close]))"
    by (rule execute_released)
next
  fix conn evs
  assume "createConnection_unpooled dm cfg connectionTimeoutMillis_default = (Inr conn, evs)"
  then show "\<exists>r evs'. metadata_unpooled dm cfg = (r, evs @ evs' @ [Close]) \<and> Close \<notin> set (evs @ evs')
           \<and> (\<forall>c. metadata_unpooled (dm\<lparr>close := c\<rparr>) cfg = (r, evs @ evs' @ [Close]))"
    by (rule metadata_unpooled_released)
next
  fix conn evs
  assume "createConnection_unpooled d cfg connectionTimeoutMillis_default = (Inr conn, evs)"
  then show "\<exists>r evs'. test_unpooled d cfg = (r, evs @ evs' @ [Close]) \<and> Close \<notin> set (evs @ evs')
           \<and> (\<forall>c. test_unpooled (d\<lparr>close := c\<rparr>) cfg = (r, evs @ evs' @ [Close]))"
    by (rule test_unpooled_released)
qed

lemma createConnection_failing:
  "createConnection failing_driver example_config connectionTimeoutMillis_default
     = (Inr (ConnectionPool (example_sqlConfig (Some ''db.example''))),
        [Connect (example_sqlConfig (Some ''db.example''))])"
  "createConnection_unpooled failing_driver example_config connectionTimeoutMillis_default
     = (Inr (ConnectionPool (example_sqlConfig (Some ''db.example''))),
        [Connect (example_sqlConfig (Some ''db.example''))])"
  by (simp_all add: createConnection_def createConnection_unpooled_def failing_driver_def
      example_config_def example_sqlConfig_def connectionTimeoutMillis_default_def
      databaseName_value_def property_or_empty_def useSsl_of_def Let_def)

text \<open>Claim C8, witness.  A driver whose queries and whose close both fail.\<close>

theorem connection_released_witness:
  "(\<exists>r evs'. metadata failing_driver example_config
        = (r, [Connect (example_sqlConfig (Some ''db.example''))] @ evs' @ [Close])
      \<and> Close \<notin> set evs'
      \<and> metadata (failing_driver\<lparr>close := None\<rparr>) example_config
        = (r, [Connect (example_sqlConfig (Some ''db.example''))] @ evs' @ [Close]))
   \<and> (\<exists>r evs'. execute (failing_driver :: unit driver) (\<lambda>rs. rs) example_context example_config
          \<lparr>body = Some ''SELECT 1'', usePreparedSql = None\<rparr>
        = (r, [Connect (example_sqlConfig (Some ''db.example''))] @ evs' @ [Close])
      \<and> Close \<notin> set evs'
      \<and> execute (failing_driver\<lparr>close := None\<rparr>) (\<lambda>rs. rs) example_context example_config
          \<lparr>body = Some ''SELECT 1'', usePreparedSql = None\<rparr>
        = (r, [Connect (example_sqlConfig (Some ''db.example''))] @ evs' @ [Close]))"
proof
  note main = connection_released [of failing_driver example_config "failing_driver :: unit driver"
      "\<lambda>rs. rs" example_context "\<lparr>body = Some ''SELECT 1'', usePreparedSql = None\<rparr>"]
  from main createConnection_failing(1)
  obtain r evs' where "metadata failing_driver example_config
        = (r, [Connect (example_sqlConfig (Some ''db.example''))] @ evs' @ [Close])"
      "Close \<notin> set ([Connect (example_sqlConfig (Some ''db.example''))] @ evs')"
      "\<forall>c. metadata (failing_driver\<lparr>close := c\<rparr>) example_config
        = (r, [Connect (example_sqlConfig (Some ''db.example''))] @ evs' @ [Close])"
    by blast
  then show "\<exists>r evs'. metadata failing_driver example_config
        = (r, [Connect (example_sqlConfig (Some ''db.example''))] @ evs' @ [Close])
      \<and> Close \<notin> set evs'
      \<and> metadata (failing_driver\<lparr>close := None\<rparr>) example_config
        = (r, [Connect (example_sqlConfig (Some ''db.example''))] @ evs' @ [Close])"
    by auto
next
  note main = connection_released [of failing_driver example_config "failing_driver :: unit driver"
      "\<lambda>rs. rs" example_context "\<lparr>body = Some ''SELECT 1'', usePreparedSql = None\<rparr>"]
  from main createConnection_failing(2)
  obtain r evs' where "execute (failing_driver :: unit driver) (\<lambda>rs. rs) example_context example_config
          \<lparr>body = Some ''SELECT 1'', usePreparedSql = None\<rparr>
        = (r, [Connect (example_sqlConfig (Some ''db.example''))] @ evs' @ [Close])"
      "Close \<notin> set ([Connect (example_sqlConfig (Some ''db.example''))] @ evs')"
      "\<forall>c. execute ((failing_driver :: unit driver)\<lparr>close := c\<rparr>) (\<lambda>rs. rs) example_context example_config
          \<lparr>body = Some ''SELECT 1'', usePreparedSql = None\<rparr>
        = (r, [Connect (example_sqlConfig (Some ''db.example''))] @ evs' @ [Close])"
    by blast
  then show "\<exists>r evs'. execute (failing_driver :: unit driver) (\<lambda>rs. rs) example_context example_config
          \<lparr>body = Some ''SELECT 1'', usePreparedSql = None\<rparr>
        = (r, [Connect (example_sqlConfig (Some ''db.example''))] @ evs' @ [Close])
      \<and> Close \<notin> set evs'
      \<and> execute (failing_driver\<lparr>close := None\<rparr>) (\<lambda>rs. rs) example_context example_config
          \<lparr>body = Some ''SELECT 1'', usePreparedSql = None\<rparr>
        = (r, [Connect (example_sqlConfig (Some ''db.example''))] @ evs' @ [Close])"
    by auto
qed

lemma failing_metadata_value:
  "metadata failing_driver example_config
     = (Inl (IntegrationError ''Failed to connect to Microsoft SQL, Incorrect syntax''),
        [Connect (example_sqlConfig (Some ''db.example'')), Query catalog_query, Close])"
  unfolding metadata_def createConnection_failing
  by (simp add: executeQuery_def plain_query_def failing_driver_def pluginName_def)

section \<open>Properties of the schema introspector\<close>

lemma push_column_keys [simp]: "map fst (push_column tm k c) = map fst tm"
  by (induction tm) (auto simp: push_column_def)

lemma get_property_own:
  "get_property tm k = OwnProperty t \<Longrightarrow> k \<in> set (map fst tm)"
proof -
  assume "get_property tm k = OwnProperty t"
  then have "map_of tm k = Some t"
    by (auto simp: get_property_def split: option.splits if_splits)
  then have "(k, t) \<in> set tm" by (rule map_of_SomeD)
  then show ?thesis by force
qed

lemma get_property_none:
  "get_property tm k = NoProperty \<Longrightarrow> k \<notin> set (map fst tm) \<and> k \<notin> set object_prototype_names"
  by (auto simp: get_property_def map_of_eq_None_iff split: option.splits if_splits)

lemma fold_rows_keys:
  "fold_rows tm rows = Inr tm' \<Longrightarrow>
     map fst tm' = map fst tm @ first_encounters (map fst tm) (map table_name rows)"
proof (induction rows arbitrary: tm)
  case Nil
  then show ?case by simp
next
  case (Cons row rest)
  show ?case
  proof (cases "get_property tm (table_name row)")
    case (OwnProperty t)
    with Cons.prems have run: "fold_rows (push_column tm (table_name row)
        (Column (column_name row) (data_type row))) rest = Inr tm'"
      by simp
    from get_property_own [OF OwnProperty] have "table_name row \<in> set (map fst tm)" .
    with Cons.IH [OF run] show ?thesis by simp
  next
    case InheritedProperty
    with Cons.prems show ?thesis by simp
  next
    case NoProperty
    let ?t = "(new_Table (table_name row) TABLE)\<lparr>columns := [Column (column_name row) (data_type row)]\<rparr>"
    from NoProperty Cons.prems have run: "fold_rows (tm @ [(table_name row, ?t)]) rest = Inr tm'"
      by simp
    from get_property_none [OF NoProperty] have "table_name row \<notin> set (map fst tm)" by simp
    with Cons.IH [OF run] show ?thesis by simp
  qed
qed

lemma push_column_names:
  "list_all (\<lambda>(k, t). name t = k) tm \<Longrightarrow> list_all (\<lambda>(k, t). name t = k) (push_column tm k c)"
  by (induction tm) (auto simp: push_column_def split: if_splits)

lemma well_named_push: "well_named tm \<Longrightarrow> well_named (push_column tm k c)"
  unfolding well_named_def by (simp add: push_column_names)

lemma well_named_append:
  "well_named tm \<Longrightarrow> k \<notin> set (map fst tm) \<Longrightarrow> name t = k \<Longrightarrow> well_named (tm @ [(k, t)])"
  unfolding well_named_def by (auto simp: list_all_iff)

lemma fold_rows_well_named:
  "fold_rows tm rows = Inr tm' \<Longrightarrow> well_named tm \<Longrightarrow> well_named tm'"
proof (induction rows arbitrary: tm)
  case Nil
  then show ?case by simp
next
  case (Cons row rest)
  show ?case
  proof (cases "get_property tm (table_name row)")
    case (OwnProperty t)
    with Cons.prems have run: "fold_rows (push_column tm (table_name row)
        (Column (column_name row) (data_type row))) rest = Inr tm'"
      by simp
    from Cons.IH [OF run well_named_push [OF Cons.prems(2)]] show ?thesis .
  next
    case InheritedProperty
    with Cons.prems show ?thesis by simp
  next
    case NoProperty
    let ?t = "(new_Table (table_name row) TABLE)\<lparr>columns := [Column (column_name row) (data_type row)]\<rparr>"
    from NoProperty Cons.prems have run: "fold_rows (tm @ [(table_name row, ?t)]) rest = Inr tm'"
      by simp
    from get_property_none [OF NoProperty] have fresh: "table_name row \<notin> set (map fst tm)" by simp
    have "name ?t = table_name row" by (simp add: new_Table_def)
    from Cons.IH [OF run well_named_append [OF Cons.prems(2) fresh this]] show ?thesis .
  qed
qed

lemma names_of_values:
  "well_named tm \<Longrightarrow> set ks \<subseteq> set (map fst tm) \<Longrightarrow>
     map name (List.map_filter (map_of tm) ks) = ks"
proof (induction ks)
  case Nil
  then show ?case by simp
next
  case (Cons k ks)
  from Cons.prems(2) have "k \<in> set (map fst tm)" by simp
  then obtain t where kt: "(k, t) \<in> set tm" by auto
  with Cons.prems(1) have m: "map_of tm k = Some t"
    by (simp add: well_named_def)
  from kt Cons.prems(1) have "name t = k"
    by (auto simp: well_named_def list_all_iff)
  with m Cons show ?case by simp
qed

lemma own_keys_subset: "set (own_keys tm) \<subseteq> set (map fst tm)"
  by (auto simp: own_keys_def)

lemma names_of_Object_values:
  "well_named tm \<Longrightarrow> map name (Object_values tm) = own_keys tm"
  unfolding Object_values_def by (rule names_of_values [OF _ own_keys_subset])

lemma build_schema_names:
  assumes "build_schema rows = Inr schema"
  shows "map name (tables schema)
     = sort_key parse_nat (filter is_array_index (first_encounters [] (map table_name rows)))
       @ filter (\<lambda>k. \<not> is_array_index k) (first_encounters [] (map table_name rows))"
proof -
  from assms obtain tm where f: "fold_rows [] rows = Inr tm"
    and s: "schema = \<lparr>tables = Object_values tm\<rparr>"
    by (auto simp: build_schema_def split: sum.splits)
  have "well_named []" by (simp add: well_named_def)
  from fold_rows_well_named [OF f this] have wn: "well_named tm" .
  from fold_rows_keys [OF f] have keys: "map fst tm = first_encounters [] (map table_name rows)"
    by simp
  from s names_of_Object_values [OF wn] have "map name (tables schema) = own_keys tm" by simp
  then show ?thesis by (simp add: own_keys_def keys)
qed

lemma first_encounters_subset: "set (first_encounters seen xs) \<subseteq> set xs"
  by (induction xs arbitrary: seen) auto

lemma first_encounters_set: "set (first_encounters seen xs) = set xs - set seen"
  by (induction xs arbitrary: seen) auto

lemma first_encounters_distinct: "distinct (first_encounters seen xs)"
  by (induction xs arbitrary: seen) (auto simp: first_encounters_set)

lemma fold_rows_total:
  "list_all (\<lambda>row. table_name row \<notin> set object_prototype_names) rows \<Longrightarrow>
     \<exists>tm'. fold_rows tm rows = Inr tm'"
proof (induction rows arbitrary: tm)
  case Nil
  then show ?case by simp
next
  case (Cons row rest)
  then have safe: "table_name row \<notin> set object_prototype_names"
    and rest: "list_all (\<lambda>row. table_name row \<notin> set object_prototype_names) rest"
    by simp_all
  from safe have "get_property tm (table_name row) \<noteq> InheritedProperty"
    by (simp add: get_property_def split: option.splits)
  then show ?case
    using Cons.IH [OF rest] by (cases "get_property tm (table_name row)") simp_all
qed

lemma map_of_push_column:
  "map_of (push_column tm k c) k'
     = (case map_of tm k' of None \<Rightarrow> None
        | Some t \<Rightarrow> Some (if k' = k then t\<lparr>columns := columns t @ [c]\<rparr> else t))"
  by (induction tm) (auto simp: push_column_def)

lemma fold_rows_columns:
  "fold_rows tm rows = Inr tm' \<Longrightarrow> map_of tm' k = Some t' \<Longrightarrow>
     columns t' = (case map_of tm k of None \<Rightarrow> [] | Some t \<Rightarrow> columns t) @ columns_of k rows"
proof (induction rows arbitrary: tm)
  case Nil
  then show ?case by (simp add: columns_of_def)
next
  case (Cons row rest)
  let ?c = "Column (column_name row) (data_type row)"
  show ?case
  proof (cases "get_property tm (table_name row)")
    case (OwnProperty t)
    with Cons.prems have run: "fold_rows (push_column tm (table_name row) ?c) rest = Inr tm'"
      by simp
    from OwnProperty have own: "map_of tm (table_name row) = Some t"
      by (auto simp: get_property_def split: option.splits if_splits)
    from Cons.IH [OF run Cons.prems(2)] own show ?thesis
      by (auto simp: map_of_push_column columns_of_def split: option.splits)
  next
    case InheritedProperty
    with Cons.prems show ?thesis by simp
  next
    case NoProperty
    let ?t = "(new_Table (table_name row) TABLE)\<lparr>columns := [?c]\<rparr>"
    from NoProperty Cons.prems have run: "fold_rows (tm @ [(table_name row, ?t)]) rest = Inr tm'"
      by simp
    from NoProperty have none: "map_of tm (table_name row) = None"
      by (auto simp: get_property_def split: option.splits if_splits)
    from Cons.IH [OF run Cons.prems(2)] none show ?thesis
      by (auto simp: columns_of_def map_add_def split: option.splits)
  qed
qed

lemma map_filter_source:
  "y \<in> set (List.map_filter f xs) \<Longrightarrow> \<exists>x. f x = Some y"
  by (induction xs) (auto split: option.splits)

text \<open>
  When no table is named like a property of \<open>Object.prototype\<close>, the fold is the one the
  spec describes: it returns, a table is created the first time its name is met, and the
  columns of a table are those of its rows, in the order of the rows.
\<close>

lemma build_schema_folds:
  assumes safe: "list_all (\<lambda>row. table_name row \<notin> set object_prototype_names) rows"
  shows "\<exists>schema. build_schema rows = Inr schema
     \<and> set (map name (tables schema)) = set (map table_name rows)
     \<and> distinct (map name (tables schema))
     \<and> list_all (\<lambda>t. type' t = TABLE \<and> columns t = columns_of (name t) rows) (tables schema)"
proof -
  from fold_rows_total [OF safe] obtain tm where f: "fold_rows [] rows = Inr tm" by blast
  let ?schema = "\<lparr>tables = Object_values tm\<rparr>"
  have b: "build_schema rows = Inr ?schema" using f by (simp add: build_schema_def)
  have "well_named []" by (simp add: well_named_def)
  from fold_rows_well_named [OF f this] have wn: "well_named tm" .
  from fold_rows_keys [OF f] have keys: "map fst tm = first_encounters [] (map table_name rows)"
    by simp
  have names: "map name (tables ?schema) = own_keys tm"
    using names_of_Object_values [OF wn] by simp
  have ks: "set (own_keys tm) = set (map fst tm)"
    by (auto simp: own_keys_def)
  have 1: "set (map name (tables ?schema)) = set (map table_name rows)"
    unfolding names ks keys by (simp add: first_encounters_set)
  have dk: "distinct (own_keys tm)"
    using wn by (auto simp: own_keys_def well_named_def distinct_map_filter)
  have 2: "distinct (map name (tables ?schema))"
    unfolding names by (rule dk)
  have 3: "list_all (\<lambda>t. type' t = TABLE \<and> columns t = columns_of (name t) rows) (tables ?schema)"
  proof (unfold list_all_iff, intro ballI conjI)
    fix t assume "t \<in> set (tables ?schema)"
    then have "t \<in> set (List.map_filter (map_of tm) (own_keys tm))"
      by (simp add: Object_values_def)
    from map_filter_source [OF this] obtain k where m: "map_of tm k = Some t" by blast
    then have "(k, t) \<in> set tm" by (rule map_of_SomeD)
    with wn have n: "name t = k" by (auto simp: well_named_def list_all_iff)
    show "type' t = TABLE" by (cases "type' t") simp
    from fold_rows_columns [OF f m] n show "columns t = columns_of (name t) rows" by simp
  qed
  from b 1 2 3 show ?thesis by blast
qed

lemma array_index_examples:
  "is_array_index ''2''" "is_array_index ''10''" "\<not> is_array_index ''b''"
  "\<not> is_array_index ''Users''" "\<not> is_array_index ''Orders''"
  "parse_nat ''2'' = 2" "parse_nat ''10'' = 10"
  by (simp_all add: is_array_index_def parse_nat_def digit_value_def number_toString.simps
      digit_char_def)

text \<open>The example of the spec: two tables, \<open>Users\<close> with its two columns in order, then
  \<open>Orders\<close>.\<close>

lemma build_schema_example:
  "build_schema example_rows
     = Inr \<lparr>tables =
         [\<lparr>name = ''Users'', type' = TABLE,
           columns = [Column ''id'' ''int'', Column ''name'' ''varchar'']\<rparr>,
          \<lparr>name = ''Orders'', type' = TABLE, columns = [Column ''id'' ''int'']\<rparr>]\<rparr>"
proof -
  have f: "fold_rows [] example_rows
     = Inr [(''Users'', \<lparr>name = ''Users'', type' = TABLE,
               columns = [Column ''id'' ''int'', Column ''name'' ''varchar'']\<rparr>),
            (''Orders'', \<lparr>name = ''Orders'', type' = TABLE, columns = [Column ''id'' ''int'']\<rparr>)]"
    by (simp add: example_rows_def get_property_def object_prototype_names_def push_column_def
        new_Table_def)
  show ?thesis
    unfolding build_schema_def f
    by (simp add: Object_values_def own_keys_def array_index_examples)
qed

lemma metadata_example:
  "metadata (example_driver example_rows) example_config
     = (Inr \<lparr>tables =
         [\<lparr>name = ''Users'', type' = TABLE,
           columns = [Column ''id'' ''int'', Column ''name'' ''varchar'']\<rparr>,
          \<lparr>name = ''Orders'', type' = TABLE, columns = [Column ''id'' ''int'']\<rparr>]\<rparr>,
        [Connect (example_sqlConfig (Some ''db.example'')), Query catalog_query, Close])"
proof -
  have q: "plain_query (example_driver example_rows) catalog_query
      = (Inr example_rows, [Query catalog_query])"
    by (simp add: plain_query_def example_driver_def)
  show ?thesis
    unfolding metadata_def createConnection_example executeQuery_def q
    by (simp add: build_schema_example)
qed

text \<open>
  Claim C6, at a table named \<open>constructor\<close>.  \<open>tablesMap["constructor"]\<close> finds the
  function inherited from \<open>Object.prototype\<close>, which is truthy, so the branch for a table
  already seen is taken; its \<open>.columns\<close> is \<open>undefined\<close> and \<open>.push\<close> throws.  The
  whole operation fails, with the message of a connection failure, where the claim has
  a new table created.
\<close>

theorem metadata_prototype_collision:
  "metadata (example_driver constructor_rows) example_config
     = (Inl (IntegrationError (''Failed to connect to Microsoft SQL, '' @ push_of_undefined)),
        [Connect (example_sqlConfig (Some ''db.example'')), Query catalog_query, Close])
   \<and> metadata_unpooled (example_driver constructor_rows) example_config
     = (Inl (IntegrationError (''Failed to connect to Microsoft SQL, '' @ push_of_undefined)),
        [Connect (example_sqlConfig (Some ''db.example'')), Query catalog_query, Close])"
proof -
  have q: "plain_query (example_driver constructor_rows) catalog_query
      = (Inr constructor_rows, [Query catalog_query])"
    by (simp add: plain_query_def example_driver_def)
  have b: "build_schema constructor_rows = Inl (ForeignError push_of_undefined)"
    by (simp add: build_schema_def constructor_rows_def get_property_def
        object_prototype_names_def)
  have 1: "metadata (example_driver constructor_rows) example_config
     = (Inl (IntegrationError (''Failed to connect to Microsoft SQL, '' @ push_of_undefined)),
        [Connect (example_sqlConfig (Some ''db.example'')), Query catalog_query, Close])"
    unfolding metadata_def createConnection_example executeQuery_def q
    by (simp add: b pluginName_def)
  have 2: "metadata_unpooled (example_driver constructor_rows) example_config
     = (Inl (IntegrationError (''Failed to connect to Microsoft SQL, '' @ push_of_undefined)),
        [Connect (example_sqlConfig (Some ''db.example'')), Query catalog_query, Close])"
    unfolding metadata_unpooled_def createConnection_example q
    by (simp add: b pluginName_def)
  from 1 2 show ?thesis by blast
qed

lemma build_schema_numbered:
  "build_schema numbered_rows
     = Inr \<lparr>tables =
         [\<lparr>name = ''2'', type' = TABLE, columns = [Column ''id'' ''int'']\<rparr>,
          \<lparr>name = ''10'', type' = TABLE, columns = [Column ''id'' ''int'']\<rparr>,
          \<lparr>name = ''b'', type' = TABLE, columns = [Column ''id'' ''int'']\<rparr>]\<rparr>"
proof -
  have f: "fold_rows [] numbered_rows
     = Inr [(''b'', \<lparr>name = ''b'', type' = TABLE, columns = [Column ''id'' ''int'']\<rparr>),
            (''10'', \<lparr>name = ''10'', type' = TABLE, columns = [Column ''id'' ''int'']\<rparr>),
            (''2'', \<lparr>name = ''2'', type' = TABLE, columns = [Column ''id'' ''int'']\<rparr>)]"
    by (simp add: numbered_rows_def get_property_def object_prototype_names_def push_column_def
        new_Table_def)
  show ?thesis
    unfolding build_schema_def f
    by (simp add: Object_values_def own_keys_def array_index_examples)
qed

lemma metadata_numbered:
  "metadata (example_driver numbered_rows) example_config
     = (Inr \<lparr>tables =
         [\<lparr>name = ''2'', type' = TABLE, columns = [Column ''id'' ''int'']\<rparr>,
          \<lparr>name = ''10'', type' = TABLE, columns = [Column ''id'' ''int'']\<rparr>,
          \<lparr>name = ''b'', type' = TABLE, columns = [Column ''id'' ''int'']\<rparr>]\<rparr>,
        [Connect (example_sqlConfig (Some ''db.example'')), Query catalog_query, Close])"
proof -
  have q: "plain_query (example_driver numbered_rows) catalog_query
      = (Inr numbered_rows, [Query catalog_query])"
    by (simp add: plain_query_def example_driver_def)
  show ?thesis
    unfolding metadata_def createConnection_example executeQuery_def q
    by (simp add: build_schema_numbered)
qed

text \<open>
  Claim C10, as stated, fails.  \<open>Object.values\<close> visits the keys that are array indices
  first, in ascending numeric order: with the tables \<open>b\<close>, \<open>10\<close>, \<open>2\<close> met in this
  order, the output lists \<open>2\<close>, \<open>10\<close>, \<open>b\<close>.
\<close>

theorem tables_order_counterexample:
  "metadata (example_driver numbered_rows) example_config
     = (Inr \<lparr>tables =
         [\<lparr>name = ''2'', type' = TABLE, columns = [Column ''id'' ''int'']\<rparr>,
          \<lparr>name = ''10'', type' = TABLE, columns = [Column ''id'' ''int'']\<rparr>,
          \<lparr>name = ''b'', type' = TABLE, columns = [Column ''id'' ''int'']\<rparr>]\<rparr>,
        [Connect (example_sqlConfig (Some ''db.example'')), Query catalog_query, Close])
   \<and> first_encounters [] (map table_name numbered_rows) = [''b'', ''10'', ''2'']"
proof -
  have "first_encounters [] (map table_name numbered_rows) = [''b'', ''10'', ''2'']"
    by (simp add: numbered_rows_def)
  with metadata_numbered show ?thesis by blast
qed

lemma metadata_Inr:
  "metadata d cfg = (Inr schema, evs) \<Longrightarrow>
     \<exists>rows. query d catalog_query [] = Inr rows \<and> build_schema rows = Inr schema"
  by (auto simp: metadata_def executeQuery_def plain_query_def split: prod.splits sum.splits)

lemma metadata_unpooled_Inr:
  "metadata_unpooled d cfg = (Inr schema, evs) \<Longrightarrow>
     \<exists>rows. query d catalog_query [] = Inr rows \<and> build_schema rows = Inr schema"
  by (auto simp: metadata_unpooled_def plain_query_def split: prod.splits sum.splits)

lemma filter_none: "filter P xs = [] \<Longrightarrow> set ys \<subseteq> set xs \<Longrightarrow>
    filter P ys = [] \<and> filter (\<lambda>x. \<not> P x) ys = ys"
  by (auto simp: filter_empty_conv filter_id_conv)

text \<open>
  Claim C10, amended.  When \<open>metadata\<close> returns a schema, its tables are: first those
  whose name is an array index (the decimal form of an integer below \<open>2^32 - 1\<close>), in
  ascending numeric order; then all the others, in the order in which their names are
  first met in the rows.  When no table name is an array index, the order is the order
  of first encounter.
\<close>

theorem tables_order:
  assumes "metadata d cfg = (Inr schema, evs) \<or> metadata_unpooled d cfg = (Inr schema, evs)"
  shows "\<exists>rows. query d catalog_query [] = Inr rows
     \<and> map name (tables schema)
       = sort_key parse_nat (filter is_array_index (first_encounters [] (map table_name rows)))
         @ filter (\<lambda>k. \<not> is_array_index k) (first_encounters [] (map table_name rows))
     \<and> (filter is_array_index (map table_name rows) = [] \<longrightarrow>
          map name (tables schema) = first_encounters [] (map table_name rows))"
proof -
  from assms metadata_Inr metadata_unpooled_Inr
  obtain rows where q: "query d catalog_query [] = Inr rows"
    and b: "build_schema rows = Inr schema"
    by blast
  let ?ns = "first_encounters [] (map table_name rows)"
  from build_schema_names [OF b]
  have order: "map name (tables schema)
       = sort_key parse_nat (filter is_array_index ?ns) @ filter (\<lambda>k. \<not> is_array_index k) ?ns" .
  have "filter is_array_index (map table_name rows) = [] \<longrightarrow> map name (tables schema) = ?ns"
  proof
    assume "filter is_array_index (map table_name rows) = []"
    from filter_none [OF this first_encounters_subset [of "[]" "map table_name rows"]]
    show "map name (tables schema) = ?ns" unfolding order by simp
  qed
  with q order show ?thesis by blast
qed

lemma table_names_examples:
  "first_encounters [] (map table_name example_rows) = [''Users'', ''Orders'']"
  "filter is_array_index (map table_name example_rows) = []"
  "first_encounters [] (map table_name numbered_rows) = [''b'', ''10'', ''2'']"
  by (simp_all add: example_rows_def numbered_rows_def array_index_examples)

text \<open>Claim C10, witness.  The catalog of the spec's example, and one with numeric table
  names.\<close>

theorem tables_order_witness:
  "(\<exists>schema evs. metadata (example_driver example_rows) example_config = (Inr schema, evs)
      \<and> map name (tables schema) = [''Users'', ''Orders''])
   \<and> (\<exists>schema evs. metadata (example_driver numbered_rows) example_config = (Inr schema, evs)
      \<and> map name (tables schema) = [''2'', ''10'', ''b''])"
proof
  let ?d = "example_driver example_rows"
  obtain schema evs where m: "metadata ?d example_config = (Inr schema, evs)"
    using metadata_example by blast
  then have h: "metadata ?d example_config = (Inr schema, evs)
      \<or> metadata_unpooled ?d example_config = (Inr schema, evs)" by blast
  have q: "query ?d catalog_query [] = Inr example_rows"
    by (simp add: example_driver_def)
  from tables_order [OF h] q
  have "filter is_array_index (map table_name example_rows) = [] \<longrightarrow>
          map name (tables schema) = first_encounters [] (map table_name example_rows)"
    by auto
  then have names: "map name (tables schema) = [''Users'', ''Orders'']"
    by (simp add: table_names_examples)
  show "\<exists>schema evs. metadata ?d example_config = (Inr schema, evs)
      \<and> map name (tables schema) = [''Users'', ''Orders'']"
    by (rule exI [of _ schema], rule exI [of _ evs]) (use m names in simp)
next
  let ?d = "example_driver numbered_rows"
  obtain schema evs where m: "metadata ?d example_config = (Inr schema, evs)"
    using metadata_numbered by blast
  then have h: "metadata ?d example_config = (Inr schema, evs)
      \<or> metadata_unpooled ?d example_config = (Inr schema, evs)" by blast
  have q: "query ?d catalog_query [] = Inr numbered_rows"
    by (simp add: example_driver_def)
  from tables_order [OF h] q
  have "map name (tables schema)
       = sort_key parse_nat (filter is_array_index (first_encounters [] (map table_name numbered_rows)))
         @ filter (\<lambda>k. \<not> is_array_index k) (first_encounters [] (map table_name numbered_rows))"
    by auto
  then have names: "map name (tables schema) = [''2'', ''10'', ''b'']"
    by (simp add: table_names_examples array_index_examples)
  show "\<exists>schema evs. metadata ?d example_config = (Inr schema, evs)
      \<and> map name (tables schema) = [''2'', ''10'', ''b'']"
    by (rule exI [of _ schema], rule exI [of _ evs]) (use m names in simp)
qed

end
